theory Spec2Isabelle
  imports Complex_Main "HOL-Library.Sublist"
begin

section \<open>Python values used by \<open>ss_lv_monitor.py\<close>\<close>

subsection \<open>Strings\<close>

text \<open>
  A Python \<open>str\<close> is a sequence of Unicode code points; a code point is a \<open>nat\<close>.
  \<open>lit\<close> turns an ASCII literal of the source into its code points. The non-ASCII literals
  of the source are spelled out: the euro sign U+20AC, and \<open>m\<close> with superscript two
  U+00B2.
\<close>

type_synonym pystr = "nat list"

definition lit :: "string \<Rightarrow> pystr" where
  "lit s = map of_char s"

definition euro :: pystr where
  "euro = [8364]"

definition m_squared :: pystr where
  "m_squared = [109, 178]"

text \<open>
  What Python takes from the Unicode character database and the source does not contain:
  \<open>decimal_of c\<close> is the digit value of a non-ASCII code point of category Nd (the
  characters \<open>\d\<close> matches and \<open>float\<close> reads as digits), \<open>lower_of s i\<close> is what
  \<open>str.lower\<close> puts for the non-ASCII code point at position \<open>i\<close> of \<open>s\<close> (one code
  point may lower to several, and capital sigma lowers by its context). ASCII is fixed
  below and never looked up.
\<close>

record ucd =
  decimal_of :: "nat \<Rightarrow> nat option"
  lower_of :: "pystr \<Rightarrow> nat \<Rightarrow> pystr"

definition is_decimal :: "ucd \<Rightarrow> nat \<Rightarrow> bool" where
  "is_decimal U c = (if c < 128 then 48 \<le> c \<and> c \<le> 57 else decimal_of U c \<noteq> None)"

definition decimal_value :: "ucd \<Rightarrow> nat \<Rightarrow> nat" where
  "decimal_value U c =
     (if c < 128 then c - 48 else (case decimal_of U c of Some v \<Rightarrow> v | None \<Rightarrow> 0))"

definition lower_at :: "ucd \<Rightarrow> pystr \<Rightarrow> nat \<Rightarrow> pystr" where
  "lower_at U s i =
     (let c = s ! i in
      if c < 128 then (if 65 \<le> c \<and> c \<le> 90 then [c + 32] else [c]) else lower_of U s i)"

definition lower :: "ucd \<Rightarrow> pystr \<Rightarrow> pystr" where
  "lower U s = concat (map (lower_at U s) [0..<length s])"

text \<open>\<open>sub in s\<close>: \<open>sub\<close> occurs in \<open>s\<close> as a contiguous run.\<close>

fun contains :: "pystr \<Rightarrow> pystr \<Rightarrow> bool" where
  "contains [] sub = (sub = [])"
| "contains (c # cs) sub = (prefix sub (c # cs) \<or> contains cs sub)"

text \<open>\<open>s.startswith(p)\<close>, \<open>s.replace(old, '')\<close> for a non-empty \<open>old\<close> (every
  occurrence, left to right, without overlap), and \<open>sep.join(parts)\<close>.\<close>

definition startswith :: "pystr \<Rightarrow> pystr \<Rightarrow> bool" where
  "startswith s p = prefix p s"

fun remove_all :: "pystr \<Rightarrow> pystr \<Rightarrow> pystr" where
  "remove_all old [] = []"
| "remove_all old (c # cs) =
     (if old \<noteq> [] \<and> prefix old (c # cs)
      then remove_all old (drop (length old) (c # cs))
      else c # remove_all old cs)"

fun join :: "pystr \<Rightarrow> pystr list \<Rightarrow> pystr" where
  "join sep [] = []"
| "join sep [p] = p"
| "join sep (p # q # ps) = p @ sep @ join sep (q # ps)"

subsection \<open>Numbers\<close>

text \<open>
  A price or an area is the \<open>int\<close> 0 or a \<open>float\<close> that \<open>float(str)\<close> returned from a
  string of digits and periods: a non-negative binary64 value or \<open>inf\<close>. \<open>Fin q\<close> is the
  number with the exact value \<open>q\<close>.
\<close>

datatype number = Fin rat | PInf

fun gt :: "number \<Rightarrow> rat \<Rightarrow> bool" where
  "gt (Fin a) b = (b < a)"
| "gt PInf b = True"

fun lt :: "number \<Rightarrow> rat \<Rightarrow> bool" where
  "lt (Fin a) b = (a < b)"
| "lt PInf b = False"

text \<open>
  \<open>to_double n d\<close> is the binary64 nearest to \<open>n / d\<close> (\<open>d > 0\<close>), ties to the even
  significand, as CPython's correctly rounded string conversion gives it: a significand of
  at most 53 bits at the exponent of \<open>n / d\<close>, no exponent below that of the subnormals,
  and \<open>inf\<close> from \<open>2 ^ 1024\<close> on.
\<close>

fun bitlen :: "nat \<Rightarrow> nat" where
  "bitlen n = (if n = 0 then 0 else Suc (bitlen (n div 2)))"

declare bitlen.simps [simp del]

definition pow2 :: "int \<Rightarrow> rat" where
  "pow2 e = (if 0 \<le> e then 2 ^ nat e else 1 / 2 ^ nat (- e))"

definition ilog2 :: "nat \<Rightarrow> nat \<Rightarrow> int" where
  "ilog2 n d =
     (let k = int (bitlen n) - int (bitlen d) in
      if (if 0 \<le> k then d * 2 ^ nat k \<le> n else d \<le> n * 2 ^ nat (- k)) then k else k - 1)"

definition round_half_even :: "nat \<Rightarrow> nat \<Rightarrow> nat" where
  "round_half_even n d =
     (let q = n div d; r = n mod d in
      if 2 * r < d then q else if d < 2 * r then q + 1 else if even q then q else q + 1)"

definition to_double :: "nat \<Rightarrow> nat \<Rightarrow> number" where
  "to_double n d =
     (if n = 0 then Fin 0
      else
        let e = max (ilog2 n d) (- 1022);
            s = e - 52;
            m = (if 0 \<le> s then round_half_even n (d * 2 ^ nat s)
                 else round_half_even (n * 2 ^ nat (- s)) d);
            r = of_nat m * pow2 s
        in if pow2 1024 \<le> r then PInf else Fin r)"

subsection \<open>Exceptions\<close>

datatype py_error = ValueError | TypeError | AttributeError | OSError | JSONDecodeError

text \<open>
  \<open>float(s)\<close> on a string of decimal digits and periods, which is all that reaches it in
  this program: digits with an optional period and optional digits after it, or a period
  and digits; anything else raises \<open>ValueError\<close>.
\<close>

definition digits_value :: "ucd \<Rightarrow> pystr \<Rightarrow> nat" where
  "digits_value U ds = foldl (\<lambda>a c. 10 * a + decimal_value U c) 0 ds"

definition float :: "ucd \<Rightarrow> pystr \<Rightarrow> py_error + number" where
  "float U s =
     (let ip = takeWhile (is_decimal U) s; r = dropWhile (is_decimal U) s in
      case r of
        [] \<Rightarrow> if ip = [] then Inl ValueError else Inr (to_double (digits_value U ip) 1)
      | c # fp \<Rightarrow>
          if c = 46 \<and> list_all (is_decimal U) fp \<and> (ip \<noteq> [] \<or> fp \<noteq> [])
          then Inr (to_double (digits_value U (ip @ fp)) (10 ^ length fp))
          else Inl ValueError)"

section \<open>Field normalizer\<close>

text \<open>
  \<open>extract_price\<close>: \<open>re.sub(r'[^\d,.]', '', price_text)\<close> keeps the digits, commas and
  periods, \<open>replace(',', '')\<close> drops the commas, and a \<open>ValueError\<close> of \<open>float\<close> is
  caught and answered with 0.
\<close>

definition extract_price :: "ucd \<Rightarrow> pystr \<Rightarrow> number" where
  "extract_price U price_text =
     (if price_text = [] then Fin 0
      else
        let price_clean = filter (\<lambda>c. is_decimal U c \<or> c = 44 \<or> c = 46) price_text;
            price_clean' = filter (\<lambda>c. c \<noteq> 44) price_clean
        in case float U price_clean' of Inr v \<Rightarrow> v | Inl e \<Rightarrow> Fin 0)"

text \<open>What the two clean-up steps leave of a text: its digits and periods.\<close>

definition digits_and_periods :: "ucd \<Rightarrow> pystr \<Rightarrow> pystr" where
  "digits_and_periods U s = filter (\<lambda>c. is_decimal U c \<or> c = 46) s"

text \<open>
  \<open>re.search(r'(\d+(?:\.\d+)?)', area_text)\<close>: the match starts at the first digit, takes
  the whole run of digits, and a period after it only together with the digits that follow.
\<close>

definition search_number :: "ucd \<Rightarrow> pystr \<Rightarrow> pystr option" where
  "search_number U s =
     (let t = dropWhile (\<lambda>c. \<not> is_decimal U c) s in
      if t = [] then None
      else
        let ip = takeWhile (is_decimal U) t; r = dropWhile (is_decimal U) t in
        case r of
          c # d # r' \<Rightarrow>
            if c = 46 \<and> is_decimal U d
            then Some (ip @ [46] @ takeWhile (is_decimal U) (d # r'))
            else Some ip
        | _ \<Rightarrow> Some ip)"

definition extract_area :: "ucd \<Rightarrow> pystr \<Rightarrow> number" where
  "extract_area U area_text =
     (if area_text = [] then Fin 0
      else
        case search_number U area_text of
          None \<Rightarrow> Fin 0
        | Some g \<Rightarrow> (case float U g of Inr v \<Rightarrow> v | Inl e \<Rightarrow> Fin 0))"

section \<open>Criteria matcher\<close>

text \<open>
  A listing is the dictionary \<open>scrape_listings\<close> builds, with its eight keys (the key
  \<open>id\<close> is the field \<open>listing_id\<close>). \<open>SEARCH_CRITERIA\<close> is the dictionary of the
  configuration section; the functions take the criteria as an argument, since the
  section is there to be edited.
\<close>

record listing =
  listing_id :: pystr
  title :: pystr
  price :: number
  area :: number
  description :: pystr
  link :: pystr
  source_url :: pystr
  scraped_at :: pystr

record criteria =
  max_price :: rat
  min_price :: rat
  keywords_include :: "pystr list"
  keywords_exclude :: "pystr list"
  min_area :: rat

definition SEARCH_CRITERIA :: criteria where
  "SEARCH_CRITERIA =
     \<lparr>max_price = 150000,
      min_price = 10000,
      keywords_include =
        [[109, 257, 106, 97], lit ''zeme'',
         [112, 114, 105, 118, 257, 116, 109, 257, 106, 97],
         [100, 122, 299, 118, 111, 107, 108, 105, 115]],
      keywords_exclude =
        [[98, 111, 106, 257, 116, 115], [97, 118, 257, 114, 105, 106, 97, 115],
         [115, 108, 275, 103, 116, 115]],
      min_area = 50\<rparr>"

text \<open>
  \<open>meets_criteria\<close> checks in the order of the source and returns at the first check
  that fails. Its \<open>except\<close> branch answers \<open>False\<close> to an exception; a listing and
  criteria with the fields and types above raise none.
\<close>

definition text_content :: "ucd \<Rightarrow> listing \<Rightarrow> pystr" where
  "text_content U l = lower U (title l @ lit '' '' @ description l)"

definition has_keyword :: "ucd \<Rightarrow> pystr list \<Rightarrow> pystr \<Rightarrow> bool" where
  "has_keyword U keywords content = list_ex (\<lambda>keyword. contains content (lower U keyword)) keywords"

definition meets_criteria :: "ucd \<Rightarrow> criteria \<Rightarrow> listing \<Rightarrow> bool" where
  "meets_criteria U C l =
     (if gt (price l) 0 \<and> (lt (price l) (min_price C) \<or> gt (price l) (max_price C)) then False
      else if gt (area l) 0 \<and> lt (area l) (min_area C) then False
      else if keywords_include C \<noteq> [] \<and> \<not> has_keyword U (keywords_include C) (text_content U l)
        then False
      else if keywords_exclude C \<noteq> [] \<and> has_keyword U (keywords_exclude C) (text_content U l)
        then False
      else True)"

section \<open>Record extractor\<close>

text \<open>
  A page as the queries of the source see it. A \<open>tr\<close> has its \<open>id\<close> attribute, if any,
  and the \<open>td\<close> elements \<open>find_all('td')\<close> returns; a \<open>td\<close> has the text
  \<open>get_text(strip=True)\<close> returns and, for the first \<open>a\<close> element inside it, that
  element's \<open>href\<close> attribute (\<open>td_a = None\<close>: no \<open>a\<close> element; \<open>Some None\<close>: one
  without \<open>href\<close>).
\<close>

record td =
  td_text :: pystr
  td_a :: "pystr option option"

record tr =
  tr_id :: "pystr option"
  tr_tds :: "td list"

text \<open>\<open>find_all('tr', id=lambda x: x and x.startswith('tr_'))\<close>.\<close>

definition is_listing_row :: "tr \<Rightarrow> bool" where
  "is_listing_row row =
     (case tr_id row of None \<Rightarrow> False | Some x \<Rightarrow> x \<noteq> [] \<and> startswith x (lit ''tr_''))"

text \<open>The first cell with a link: \<open>link_elem and link_elem.get('href')\<close>.\<close>

fun find_title_cell :: "td list \<Rightarrow> (td \<times> pystr) option" where
  "find_title_cell [] = None"
| "find_title_cell (cell # cells) =
     (case td_a cell of
        Some (Some href) \<Rightarrow>
          if href \<noteq> [] then Some (cell, href) else find_title_cell cells
      | _ \<Rightarrow> find_title_cell cells)"

definition absolute_link :: "pystr \<Rightarrow> pystr" where
  "absolute_link href =
     (if \<not> startswith href (lit ''http'') then lit ''https://www.ss.lv'' @ href else href)"

text \<open>The two scans that stop at the first cell with a marker.\<close>

fun find_price :: "ucd \<Rightarrow> td list \<Rightarrow> number" where
  "find_price U [] = Fin 0"
| "find_price U (cell # cells) =
     (if contains (td_text cell) euro \<or> contains (td_text cell) (lit ''EUR'')
      then extract_price U (td_text cell)
      else find_price U cells)"

fun find_area :: "ucd \<Rightarrow> td list \<Rightarrow> number" where
  "find_area U [] = Fin 0"
| "find_area U (cell # cells) =
     (if contains (td_text cell) m_squared \<or> contains (td_text cell) (lit ''m2'')
      then extract_area U (td_text cell)
      else find_area U cells)"

definition description_parts :: "pystr \<Rightarrow> td list \<Rightarrow> pystr list" where
  "description_parts ttl cells =
     filter (\<lambda>t. t \<noteq> [] \<and> t \<noteq> ttl \<and> \<not> contains t euro \<and> \<not> contains t m_squared)
       (map td_text cells)"

text \<open>
  One pass of the body of the loop over the rows: \<open>None\<close> is a \<open>continue\<close>. \<open>now\<close> is
  what \<open>datetime.now().isoformat()\<close> returns when the listing is built. The \<open>except\<close>
  of the loop body skips a row that raises; on a row as modelled here nothing raises.
\<close>

definition parse_row :: "ucd \<Rightarrow> pystr \<Rightarrow> pystr \<Rightarrow> tr \<Rightarrow> listing option" where
  "parse_row U url now row =
     (let lid = remove_all (lit ''tr_'') (case tr_id row of None \<Rightarrow> [] | Some x \<Rightarrow> x) in
      if lid = [] then None
      else
        let cells = tr_tds row in
        if length cells < 4 then None
        else
          case find_title_cell cells of
            None \<Rightarrow> None
          | Some (title_cell, href) \<Rightarrow>
              let ttl = td_text title_cell in
              Some \<lparr>listing_id = lid,
                    title = ttl,
                    price = find_price U cells,
                    area = find_area U cells,
                    description = join (lit '' | '') (description_parts ttl cells),
                    link = absolute_link href,
                    source_url = url,
                    scraped_at = now\<rparr>)"

text \<open>
  The loop over the rows; \<open>clock k\<close> is the time at which row number \<open>k\<close> of the page is
  handled.
\<close>

fun scrape_rows :: "ucd \<Rightarrow> pystr \<Rightarrow> (nat \<Rightarrow> pystr) \<Rightarrow> nat \<Rightarrow> tr list \<Rightarrow> listing list" where
  "scrape_rows U url clock k [] = []"
| "scrape_rows U url clock k (row # rows) =
     (case parse_row U url (clock k) row of
        None \<Rightarrow> scrape_rows U url clock (Suc k) rows
      | Some l \<Rightarrow> l # scrape_rows U url clock (Suc k) rows)"

text \<open>
  What the request for a URL gives: an exception of \<open>session.get\<close> or
  \<open>raise_for_status\<close>, or a page with its \<open>tr\<close> elements in document order. The error
  lines of the log are kept; the informational ones are not modelled.
\<close>

datatype response = Request_failed | Page "tr list"

datatype log_line = Error_loading | Error_saving | Error_scraping pystr

definition scrape_listings ::
  "ucd \<Rightarrow> (pystr \<Rightarrow> response) \<Rightarrow> (pystr \<Rightarrow> nat \<Rightarrow> pystr) \<Rightarrow> pystr \<Rightarrow> listing list \<times> log_line list"
where
  "scrape_listings U web clock url =
     (case web url of
        Request_failed \<Rightarrow> ([], [Error_scraping url])
      | Page trs \<Rightarrow> (scrape_rows U url (clock url) 0 (filter is_listing_row trs), []))"

section \<open>Seen-state store\<close>

text \<open>
  What \<open>json.load\<close> returns: \<open>None\<close>, a \<open>bool\<close>, a number, a \<open>str\<close>, a \<open>list\<close> or
  a \<open>dict\<close> with \<open>str\<close> keys (its items, one per key). The data file is modelled by
  what reading it gives: no file, a file that cannot be opened, content that
  \<open>json.load\<close> rejects (which a file cut short by an interrupted write is, the text of a
  JSON object being closed by its last character), or a document.
\<close>

datatype json =
  JNull | JBool bool | JNum rat | JStr pystr | JArr "json list" | JObj "(pystr \<times> json) list"

datatype data_file = Absent | Unreadable | Undecodable | Holds json

text \<open>
  The known listings are a Python \<open>set\<close>: here the list of its members in some order,
  without repetition. Members are compared as Python compares them, \<open>True\<close> and
  \<open>False\<close> being equal to 1 and 0; a listing id is a \<open>str\<close>.
\<close>

fun canon :: "json \<Rightarrow> json" where
  "canon (JBool b) = JNum (if b then 1 else 0)"
| "canon j = j"

definition set_contains :: "json list \<Rightarrow> json \<Rightarrow> bool" where
  "set_contains K x = (canon x \<in> set (map canon K))"

definition set_add :: "json list \<Rightarrow> json \<Rightarrow> json list" where
  "set_add K x = (if set_contains K x then K else K @ [x])"

fun hashable :: "json \<Rightarrow> bool" where
  "hashable (JArr xs) = False"
| "hashable (JObj kvs) = False"
| "hashable j = True"

text \<open>\<open>set(v)\<close>: the members of a list, the characters of a string, the keys of a
  dictionary; \<open>TypeError\<close> for a list with an unhashable member and for a value that
  cannot be iterated.\<close>

fun py_set :: "json \<Rightarrow> py_error + json list" where
  "py_set (JArr xs) =
     (if list_all hashable xs then Inr (foldl set_add [] xs) else Inl TypeError)"
| "py_set (JStr s) = Inr (foldl set_add [] (map (\<lambda>c. JStr [c]) s))"
| "py_set (JObj kvs) = Inr (foldl set_add [] (map (\<lambda>kv. JStr (fst kv)) kvs))"
| "py_set j = Inl TypeError"

text \<open>\<open>data.get('known_listings', [])\<close>: only a dictionary has \<open>get\<close>.\<close>

fun get_known_listings :: "json \<Rightarrow> py_error + json" where
  "get_known_listings (JObj kvs) =
     (case map_of kvs (lit ''known_listings'') of None \<Rightarrow> Inr (JArr []) | Some v \<Rightarrow> Inr v)"
| "get_known_listings j = Inl AttributeError"

text \<open>
  The body of the \<open>try\<close> of \<open>load_known_listings\<close>: \<open>Inr None\<close> when the file does not
  exist and control falls out of the \<open>try\<close>, \<open>Inr (Some K)\<close> for the \<open>return\<close> inside
  it, \<open>Inl e\<close> for an exception.
\<close>

definition load_body :: "data_file \<Rightarrow> py_error + json list option" where
  "load_body f =
     (case f of
        Absent \<Rightarrow> Inr None
      | Unreadable \<Rightarrow> Inl OSError
      | Undecodable \<Rightarrow> Inl JSONDecodeError
      | Holds data \<Rightarrow>
          (case get_known_listings data of
             Inl e \<Rightarrow> Inl e
           | Inr v \<Rightarrow> (case py_set v of Inl e \<Rightarrow> Inl e | Inr K \<Rightarrow> Inr (Some K))))"

definition load_known_listings :: "data_file \<Rightarrow> json list \<times> log_line list" where
  "load_known_listings f =
     (case load_body f of
        Inr (Some K) \<Rightarrow> (K, [])
      | Inr None \<Rightarrow> ([], [])
      | Inl e \<Rightarrow> ([], [Error_loading]))"

text \<open>
  \<open>save_known_listings\<close>. \<open>open(DATA_FILE, 'w')\<close> either fails and leaves the file as it
  was, or empties it; \<open>json.dump\<close> then writes the document piece by piece. A fault after
  the opening leaves a file without a complete document. \<open>now\<close> is the time stamp.
\<close>

datatype fault = No_fault | Open_fails | Write_fails

definition known_document :: "json list \<Rightarrow> pystr \<Rightarrow> json" where
  "known_document K now =
     JObj [(lit ''known_listings'', JArr K), (lit ''last_updated'', JStr now)]"

definition save_known_listings ::
  "json list \<Rightarrow> pystr \<Rightarrow> fault \<Rightarrow> data_file \<Rightarrow> data_file \<times> log_line list"
where
  "save_known_listings K now flt f =
     (case flt of
        No_fault \<Rightarrow> (Holds (known_document K now), [])
      | Open_fails \<Rightarrow> (f, [Error_saving])
      | Write_fails \<Rightarrow> (Undecodable, [Error_saving]))"

section \<open>Run orchestrator\<close>

definition URLS_TO_MONITOR :: "pystr list" where
  "URLS_TO_MONITOR =
     [lit ''https://www.ss.lv/lv/real-estate/homes-summer-residences/riga-region/olaines-pag/filter/'',
      lit ''https://www.ss.lv/lv/real-estate/plots-and-lands/riga-region/olaines-pag/filter/'']"

text \<open>
  The inner loop of \<open>check_for_new_listings\<close> over the listings of one URL: the state is
  the known set and the list of new matching listings.
\<close>

fun classify ::
  "ucd \<Rightarrow> criteria \<Rightarrow> listing list \<Rightarrow> json list \<times> listing list \<Rightarrow> json list \<times> listing list"
where
  "classify U C [] (K, new) = (K, new)"
| "classify U C (l # ls) (K, new) =
     (if \<not> set_contains K (JStr (listing_id l))
      then classify U C ls
             (set_add K (JStr (listing_id l)), if meets_criteria U C l then new @ [l] else new)
      else classify U C ls (K, new))"

text \<open>
  The environment of one run: the Unicode tables, the edited configuration, what the
  requests return, the clock readings of the extraction and of the save, and the fault
  of the save.
\<close>

record env =
  unicode :: ucd
  search_criteria :: criteria
  urls :: "pystr list"
  web :: "pystr \<Rightarrow> response"
  clock :: "pystr \<Rightarrow> nat \<Rightarrow> pystr"
  saved_at :: pystr
  save_fault :: fault

text \<open>The outer loop over the URLs; the state adds the error lines logged so far.\<close>

fun check_urls ::
  "env \<Rightarrow> pystr list \<Rightarrow> json list \<times> listing list \<times> log_line list
     \<Rightarrow> json list \<times> listing list \<times> log_line list"
where
  "check_urls E [] st = st"
| "check_urls E (url # rest) (K, new, lg) =
     (case scrape_listings (unicode E) (web E) (clock E) url of
        (listings, lg') \<Rightarrow>
          (case classify (unicode E) (search_criteria E) listings (K, new) of
             (K', new') \<Rightarrow> check_urls E rest (K', new', lg @ lg')))"

text \<open>
  The monitor object is its known set; the world outside it is the data file and the
  log. \<open>check_for_new_listings\<close> returns the new matching listings and leaves the known
  set, the file and the log changed.
\<close>

record outcome =
  new_matching_listings :: "listing list"
  known_listings :: "json list"
  file_after :: data_file
  logged :: "log_line list"

definition check_for_new_listings :: "env \<Rightarrow> json list \<Rightarrow> data_file \<Rightarrow> outcome" where
  "check_for_new_listings E K f =
     (case check_urls E (urls E) (K, [], []) of
        (K', new, lg) \<Rightarrow>
          (case save_known_listings K' (saved_at E) (save_fault E) f of
             (f', lg') \<Rightarrow>
               \<lparr>new_matching_listings = new, known_listings = K', file_after = f',
                logged = lg @ lg'\<rparr>))"

text \<open>
  A process started in single mode: \<open>SSLVMonitor()\<close> loads the known set from the file,
  and \<open>run_check\<close> calls \<open>check_for_new_listings\<close> once.
\<close>

definition single_run :: "env \<Rightarrow> data_file \<Rightarrow> outcome" where
  "single_run E f =
     (case load_known_listings f of
        (K, lg) \<Rightarrow>
          (let r = check_for_new_listings E K f in r\<lparr>logged := lg @ logged r\<rparr>))"

section \<open>Example data\<close>

text \<open>
  Tables without non-ASCII digits, under which a non-ASCII code point lowers to itself:
  enough for inputs whose digits and capital letters are ASCII.
\<close>

definition ascii_ucd :: ucd where
  "ascii_ucd = \<lparr>decimal_of = (\<lambda>c. None), lower_of = (\<lambda>s i. [s ! i])\<rparr>"

definition ascii_lower :: "nat \<Rightarrow> nat" where
  "ascii_lower c = (if 65 \<le> c \<and> c \<le> 90 then c + 32 else c)"

text \<open>The listings and criteria of the keyword examples.\<close>

definition cozy_house :: listing where
  "cozy_house =
     \<lparr>listing_id = lit ''a1'', title = lit ''Cozy House'', price = Fin 0, area = Fin 0,
      description = [], link = lit ''https://www.ss.lv/a1'',
      source_url = lit ''https://www.ss.lv/'', scraped_at = lit ''2024-01-01T00:00:00''\<rparr>"

definition house_criteria :: criteria where
  "house_criteria =
     \<lparr>max_price = 150000, min_price = 10000, keywords_include = [lit ''house''],
      keywords_exclude = [], min_area = 50\<rparr>"

definition damaged_house :: listing where
  "damaged_house = cozy_house\<lparr>description := lit ''slightly damaged''\<rparr>"

definition damaged_criteria :: criteria where
  "damaged_criteria = house_criteria\<lparr>keywords_exclude := [lit ''damaged'']\<rparr>"

text \<open>Two listing ids, and a page with two listing rows.\<close>

definition a1 :: pystr where
  "a1 = lit ''a1''"

definition a2 :: pystr where
  "a2 = lit ''a2''"

definition plain :: "string \<Rightarrow> td" where
  "plain s = \<lparr>td_text = lit s, td_a = None\<rparr>"

definition linked :: "string \<Rightarrow> string \<Rightarrow> td" where
  "linked s href = \<lparr>td_text = lit s, td_a = Some (Some (lit href))\<rparr>"

definition row_short :: tr where
  "row_short =
     \<lparr>tr_id = Some (lit ''tr_100''),
      tr_tds = [linked ''Short row'' ''/msg/100.html'', plain ''Riga'', plain ''10 EUR'']\<rparr>"

definition row_eur :: tr where
  "row_eur =
     \<lparr>tr_id = Some (lit ''tr_200''),
      tr_tds = [linked ''Plot in Olaine'' ''/msg/200.html'', plain ''100 EUR'', plain ''50 m2'',
                plain ''Riga'']\<rparr>"

definition listing_eur :: listing where
  "listing_eur =
     \<lparr>listing_id = lit ''200'', title = lit ''Plot in Olaine'', price = Fin 100, area = Fin 50,
      description = lit ''100 EUR | 50 m2 | Riga'', link = lit ''https://www.ss.lv/msg/200.html'',
      source_url = lit ''https://www.ss.lv/plots/'', scraped_at = lit ''2024-01-01T00:00:00''\<rparr>"

definition plots_url :: pystr where
  "plots_url = lit ''https://www.ss.lv/plots/''"

definition plots_web :: "pystr \<Rightarrow> response" where
  "plots_web url = (if url = plots_url then Page [row_short, row_eur] else Request_failed)"

definition fixed_clock :: "pystr \<Rightarrow> nat \<Rightarrow> pystr" where
  "fixed_clock url k = lit ''2024-01-01T00:00:00''"

text \<open>
  A run over that page under the criteria of the source, and a later run over the same
  page under criteria that the listing of the page meets, whose save fails.
\<close>

definition plots_env :: env where
  "plots_env =
     \<lparr>unicode = ascii_ucd, search_criteria = SEARCH_CRITERIA, urls = [plots_url],
      web = plots_web, clock = fixed_clock, saved_at = lit ''2024-01-01T00:00:05'',
      save_fault = No_fault\<rparr>"

definition plot_criteria :: criteria where
  "plot_criteria =
     \<lparr>max_price = 150000, min_price = 50, keywords_include = [lit ''plot''],
      keywords_exclude = [], min_area = 10\<rparr>"

definition later_env :: env where
  "later_env =
     plots_env\<lparr>search_criteria := plot_criteria, clock := (\<lambda>url k. lit ''2024-01-02T00:00:00''),
       saved_at := lit ''2024-01-02T00:00:05'', save_fault := Write_fails\<rparr>"

section \<open>Strings: basic facts\<close>

lemma contains_sublist: "contains s sub = sublist sub s"
  by (induction s) (auto simp: sublist_Cons_right)

lemma has_keyword_iff:
  "has_keyword U ks content = (\<exists>k \<in> set ks. sublist (lower U k) content)"
  by (simp add: has_keyword_def list_ex_iff contains_sublist)

lemma concat_singletons: "concat (map (\<lambda>i. [f i]) xs) = map f xs"
  by (induction xs) simp_all

lemma lower_ascii:
  assumes "\<forall>c \<in> set s. c < 128"
  shows "lower U s = map ascii_lower s"
proof -
  have h: "map (lower_at U s) [0..<length s] = map (\<lambda>i. [ascii_lower (s ! i)]) [0..<length s]"
    using assms by (auto simp: lower_at_def ascii_lower_def Let_def)
  have "lower U s = concat (map (\<lambda>i. [ascii_lower (s ! i)]) [0..<length s])"
    by (simp only: lower_def h)
  also have "\<dots> = map (\<lambda>i. ascii_lower (s ! i)) [0..<length s]"
    by (rule concat_singletons)
  also have "\<dots> = map ascii_lower (map ((!) s) [0..<length s])"
    by simp
  also have "\<dots> = map ascii_lower s"
    by (simp only: map_nth)
  finally show ?thesis .
qed

lemma lower_house: "lower U (lit ''house'') = lit ''house''"
  by (subst lower_ascii) (simp_all add: lit_def ascii_lower_def)

lemma text_content_cozy: "text_content U cozy_house = lit ''cozy house ''"
proof -
  have "title cozy_house @ lit '' '' @ description cozy_house = lit ''Cozy House ''"
    by (simp add: cozy_house_def lit_def)
  moreover have "lower U (lit ''Cozy House '') = lit ''cozy house ''"
    by (subst lower_ascii) (simp_all add: lit_def ascii_lower_def)
  ultimately show ?thesis
    by (simp only: text_content_def)
qed

lemma cozy_matches: "meets_criteria U house_criteria cozy_house"
  by (simp add: meets_criteria_def house_criteria_def has_keyword_def text_content_cozy lower_house)
     (simp add: cozy_house_def lit_def)

section \<open>The matcher\<close>

text \<open>
  Claim C2. A listing whose price is the sentinel 0 gets the same verdict whatever the
  price bounds of the criteria are, and a listing whose area is 0 gets the same verdict
  whatever the area floor is: the bounds are not applied to a sentinel. With both at 0
  the verdict is that of the keyword checks alone.
\<close>

theorem meets_criteria_sentinel:
  "(price l = Fin 0 \<longrightarrow>
      meets_criteria U C l = meets_criteria U (C\<lparr>min_price := lo, max_price := hi\<rparr>) l) \<and>
   (area l = Fin 0 \<longrightarrow>
      meets_criteria U C l = meets_criteria U (C\<lparr>min_area := ar\<rparr>) l) \<and>
   (price l = Fin 0 \<and> area l = Fin 0 \<longrightarrow>
      meets_criteria U C l =
        ((keywords_include C = [] \<or> has_keyword U (keywords_include C) (text_content U l)) \<and>
         (keywords_exclude C = [] \<or> \<not> has_keyword U (keywords_exclude C) (text_content U l))))"
  by (auto simp: meets_criteria_def)

theorem meets_criteria_sentinel_witness:
  "price cozy_house = Fin 0 \<and> area cozy_house = Fin 0 \<and>
   meets_criteria ascii_ucd house_criteria cozy_house \<and>
   meets_criteria ascii_ucd (house_criteria\<lparr>min_price := 1, max_price := 2\<rparr>) cozy_house \<and>
   meets_criteria ascii_ucd (house_criteria\<lparr>min_area := 1000\<rparr>) cozy_house \<and>
   has_keyword ascii_ucd (keywords_include house_criteria) (text_content ascii_ucd cozy_house)"
proof -
  note w = meets_criteria_sentinel [where l = cozy_house and U = ascii_ucd
      and C = house_criteria and lo = 1 and hi = 2 and ar = 1000]
  have p: "price cozy_house = Fin 0" and a: "area cozy_house = Fin 0"
    by (simp_all add: cozy_house_def)
  have m: "meets_criteria ascii_ucd house_criteria cozy_house"
    by (rule cozy_matches)
  from p m w
  have m1: "meets_criteria ascii_ucd (house_criteria\<lparr>min_price := 1, max_price := 2\<rparr>) cozy_house"
    by blast
  from a m w
  have m2: "meets_criteria ascii_ucd (house_criteria\<lparr>min_area := 1000\<rparr>) cozy_house"
    by blast
  have "keywords_include house_criteria \<noteq> []"
    by (simp add: house_criteria_def)
  with p a m w
  have k: "has_keyword ascii_ucd (keywords_include house_criteria)
      (text_content ascii_ucd cozy_house)"
    by blast
  from p a m m1 m2 k show ?thesis by blast
qed

lemma lower_cozy_house: "lower U (lit ''Cozy House'' @ lit '' '') = lit ''cozy house ''"
  by (subst lower_ascii) (simp_all add: lit_def ascii_lower_def)

lemma lower_damaged_house:
  "lower U (lit ''Cozy House'' @ lit '' '' @ lit ''slightly damaged'') =
   lit ''cozy house slightly damaged''"
  by (subst lower_ascii) (simp_all add: lit_def ascii_lower_def)

lemma lower_damaged: "lower U (lit ''damaged'') = lit ''damaged''"
  by (subst lower_ascii) (simp_all add: lit_def ascii_lower_def)

lemma house_in_cozy: "contains (lit ''cozy house '') (lit ''house'')"
  by (simp add: lit_def)

lemma damaged_in_damaged_house:
  "contains (lit ''cozy house slightly damaged'') (lit ''damaged'')"
  by (simp add: lit_def)

text \<open>
  Claim C3. The matcher searches the lowercased title, a space and the description. A
  non-empty include list none of whose lowercased members occurs there rejects, and a
  non-empty exclude list one of whose lowercased members occurs there rejects. With the
  include list \<open>house\<close> and no exclude list, "Cozy House" with an empty description
  passes both keyword checks, so the verdict is that of the price and area checks; with
  the description "slightly damaged" and the exclude list \<open>damaged\<close> it is rejected.
\<close>

theorem meets_criteria_keywords:
  "text_content U l = lower U (title l @ lit '' '' @ description l) \<and>
   (keywords_include C \<noteq> [] \<and>
    (\<forall>k \<in> set (keywords_include C). \<not> sublist (lower U k) (text_content U l))
      \<longrightarrow> \<not> meets_criteria U C l) \<and>
   (keywords_exclude C \<noteq> [] \<and>
    (\<exists>k \<in> set (keywords_exclude C). sublist (lower U k) (text_content U l))
      \<longrightarrow> \<not> meets_criteria U C l) \<and>
   (title l = lit ''Cozy House'' \<and> description l = [] \<and>
    keywords_include C = [lit ''house''] \<and> keywords_exclude C = []
      \<longrightarrow> meets_criteria U C l =
            (\<not> (gt (price l) 0 \<and> (lt (price l) (min_price C) \<or> gt (price l) (max_price C))) \<and>
             \<not> (gt (area l) 0 \<and> lt (area l) (min_area C)))) \<and>
   (title l = lit ''Cozy House'' \<and> description l = lit ''slightly damaged'' \<and>
    keywords_include C = [lit ''house''] \<and> keywords_exclude C = [lit ''damaged'']
      \<longrightarrow> \<not> meets_criteria U C l)"
proof (intro conjI impI)
  show "text_content U l = lower U (title l @ lit '' '' @ description l)"
    by (simp add: text_content_def)
next
  assume "keywords_include C \<noteq> [] \<and>
    (\<forall>k \<in> set (keywords_include C). \<not> sublist (lower U k) (text_content U l))"
  then show "\<not> meets_criteria U C l"
    by (simp add: meets_criteria_def has_keyword_iff)
next
  assume "keywords_exclude C \<noteq> [] \<and>
    (\<exists>k \<in> set (keywords_exclude C). sublist (lower U k) (text_content U l))"
  then show "\<not> meets_criteria U C l"
    by (simp add: meets_criteria_def has_keyword_iff)
next
  assume a: "title l = lit ''Cozy House'' \<and> description l = [] \<and>
    keywords_include C = [lit ''house''] \<and> keywords_exclude C = []"
  then have "text_content U l = lit ''cozy house ''"
    by (simp add: text_content_def lower_cozy_house)
  with a show "meets_criteria U C l =
      (\<not> (gt (price l) 0 \<and> (lt (price l) (min_price C) \<or> gt (price l) (max_price C))) \<and>
       \<not> (gt (area l) 0 \<and> lt (area l) (min_area C)))"
    by (auto simp: meets_criteria_def has_keyword_def lower_house house_in_cozy)
next
  assume a: "title l = lit ''Cozy House'' \<and> description l = lit ''slightly damaged'' \<and>
    keywords_include C = [lit ''house''] \<and> keywords_exclude C = [lit ''damaged'']"
  then have "text_content U l = lit ''cozy house slightly damaged''"
    by (simp add: text_content_def lower_damaged_house)
  with a show "\<not> meets_criteria U C l"
    by (simp add: meets_criteria_def has_keyword_def lower_damaged damaged_in_damaged_house)
qed

theorem meets_criteria_keywords_witness:
  "meets_criteria ascii_ucd house_criteria cozy_house \<and>
   \<not> meets_criteria ascii_ucd damaged_criteria damaged_house \<and>
   \<not> meets_criteria ascii_ucd (house_criteria\<lparr>keywords_include := [lit ''garage'']\<rparr>) cozy_house \<and>
   \<not> meets_criteria ascii_ucd (house_criteria\<lparr>keywords_exclude := [lit ''house'']\<rparr>) cozy_house"
proof -
  note k1 = meets_criteria_keywords [where U = ascii_ucd and l = cozy_house and C = house_criteria]
  note k2 = meets_criteria_keywords [where U = ascii_ucd and l = damaged_house
      and C = damaged_criteria]
  note k3 = meets_criteria_keywords [where U = ascii_ucd and l = cozy_house
      and C = "house_criteria\<lparr>keywords_include := [lit ''garage'']\<rparr>"]
  note k4 = meets_criteria_keywords [where U = ascii_ucd and l = cozy_house
      and C = "house_criteria\<lparr>keywords_exclude := [lit ''house'']\<rparr>"]
  have c: "title cozy_house = lit ''Cozy House'' \<and> description cozy_house = [] \<and>
      keywords_include house_criteria = [lit ''house''] \<and> keywords_exclude house_criteria = []"
    by (simp add: cozy_house_def house_criteria_def)
  have n: "\<not> (gt (price cozy_house) 0 \<and>
        (lt (price cozy_house) (min_price house_criteria) \<or>
         gt (price cozy_house) (max_price house_criteria))) \<and>
      \<not> (gt (area cozy_house) 0 \<and> lt (area cozy_house) (min_area house_criteria))"
    by (simp add: cozy_house_def)
  from k1 c n have m1: "meets_criteria ascii_ucd house_criteria cozy_house"
    by blast
  have d: "title damaged_house = lit ''Cozy House'' \<and>
      description damaged_house = lit ''slightly damaged'' \<and>
      keywords_include damaged_criteria = [lit ''house''] \<and>
      keywords_exclude damaged_criteria = [lit ''damaged'']"
    by (simp add: damaged_house_def damaged_criteria_def cozy_house_def house_criteria_def)
  from k2 d have m2: "\<not> meets_criteria ascii_ucd damaged_criteria damaged_house"
    by blast
  have "lower ascii_ucd (lit ''garage'') = lit ''garage''"
    by (subst lower_ascii) (simp_all add: lit_def ascii_lower_def)
  moreover have "\<not> contains (lit ''cozy house '') (lit ''garage'')"
    by (simp add: lit_def)
  ultimately have g: "keywords_include (house_criteria\<lparr>keywords_include := [lit ''garage'']\<rparr>) \<noteq> [] \<and>
      (\<forall>k \<in> set (keywords_include (house_criteria\<lparr>keywords_include := [lit ''garage'']\<rparr>)).
         \<not> sublist (lower ascii_ucd k) (text_content ascii_ucd cozy_house))"
    by (simp add: text_content_cozy contains_sublist)
  from k3 g have m3:
    "\<not> meets_criteria ascii_ucd (house_criteria\<lparr>keywords_include := [lit ''garage'']\<rparr>) cozy_house"
    by blast
  have h: "keywords_exclude (house_criteria\<lparr>keywords_exclude := [lit ''house'']\<rparr>) \<noteq> [] \<and>
      (\<exists>k \<in> set (keywords_exclude (house_criteria\<lparr>keywords_exclude := [lit ''house'']\<rparr>)).
         sublist (lower ascii_ucd k) (text_content ascii_ucd cozy_house))"
    using house_in_cozy by (simp add: text_content_cozy contains_sublist lower_house)
  from k4 h have m4:
    "\<not> meets_criteria ascii_ucd (house_criteria\<lparr>keywords_exclude := [lit ''house'']\<rparr>) cozy_house"
    by blast
  from m1 m2 m3 m4 show ?thesis by blast
qed

section \<open>Numbers: basic facts\<close>

text \<open>An integer below \<open>2 ^ 53\<close> is a binary64 value: the conversion returns it unchanged.\<close>

lemma bitlen_bounds: "0 < n \<Longrightarrow> 2 ^ (bitlen n - 1) \<le> n \<and> n < 2 ^ bitlen n"
proof (induction n rule: bitlen.induct)
  case (1 n)
  show ?case
  proof (cases "n div 2 = 0")
    case True
    with 1(2) have "n = 1" by (simp add: div_eq_0_iff) 
    then show ?thesis by (simp add: bitlen.simps)
  next
    case False
    then have pos: "0 < n div 2" by simp
    from 1(1) [OF _ pos] 1(2) have ih: "2 ^ (bitlen (n div 2) - 1) \<le> n div 2" "n div 2 < 2 ^ bitlen (n div 2)"
      by simp_all
    from pos have bl: "bitlen n = Suc (bitlen (n div 2))"
      by (subst bitlen.simps) auto
    from pos have "0 < bitlen (n div 2)"
      by (subst bitlen.simps) auto
    then have e: "bitlen n - 1 = Suc (bitlen (n div 2) - 1)"
      using bl by simp
    from \<open>0 < bitlen (n div 2)\<close>
    have "(2::nat) ^ bitlen (n div 2) = 2 * 2 ^ (bitlen (n div 2) - 1)"
      by (cases "bitlen (n div 2)") simp_all
    with ih(1) have "2 ^ bitlen (n div 2) \<le> n" by linarith
    moreover from ih(2) have "n < 2 * 2 ^ bitlen (n div 2)" by linarith
    ultimately show ?thesis
      by (simp add: e bl)
  qed
qed

lemma to_double_exact_Suc:
  assumes "0 < n" "n < 2 ^ 53"
  shows "to_double n (Suc 0) = Fin (of_nat n)"
proof -
  from bitlen_bounds [OF assms(1)] have lo: "2 ^ (bitlen n - 1) \<le> n" and hi: "n < 2 ^ bitlen n"
    by simp_all
  from assms(1) have bpos: "0 < bitlen n"
    by (subst bitlen.simps) auto
  have b1: "bitlen (Suc 0) = Suc 0" by (simp add: bitlen.simps)
  from lo assms(2) have "(2::nat) ^ (bitlen n - 1) < 2 ^ 53" by linarith
  then have k: "bitlen n - 1 < 53"
    by (rule power_less_imp_less_exp [rotated]) simp
  define k where "k = bitlen n - 1"
  with bpos have bk: "int (bitlen n) - int (bitlen (Suc 0)) = int k"
    by (simp add: b1)
  from lo have il: "ilog2 n (Suc 0) = int k"
    unfolding ilog2_def Let_def bk by (simp add: k_def)
  from k have k52: "k \<le> 52" by (simp add: k_def)
  have mx: "max (int k) (- 1022) = int k" by simp
  have "(2::nat) ^ 53 < 2 ^ 1024"
    by (rule power_strict_increasing) simp_all
  with assms(2) have "n < 2 ^ 1024" by (rule less_trans)
  then have "rat_of_nat n < rat_of_nat (2 ^ 1024)"
    by (simp only: of_nat_less_iff)
  then have big: "\<not> pow2 1024 \<le> rat_of_nat n"
    by (simp add: pow2_def)
  have r: "rat_of_nat
      (if 0 \<le> int k - 52 then round_half_even n (Suc 0 * 2 ^ nat (int k - 52))
       else round_half_even (n * 2 ^ nat (- (int k - 52))) (Suc 0)) * pow2 (int k - 52) =
      rat_of_nat n"
  proof (cases "k = 52")
    case True
    then show ?thesis
      by (simp add: round_half_even_def pow2_def)
  next
    case False
    with k52 have "k < 52" by simp
    then show ?thesis
      by (simp add: round_half_even_def pow2_def)
  qed
  from assms(1) big show ?thesis
    unfolding to_double_def il Let_def mx r by simp
qed

lemma to_double_exact: "0 < n \<Longrightarrow> n < 2 ^ 53 \<Longrightarrow> to_double n 1 = Fin (of_nat n)"
  using to_double_exact_Suc [of n] by simp

section \<open>The field normalizer\<close>

lemma period_not_decimal [simp]: "\<not> is_decimal U 46"
  by (simp add: is_decimal_def)

lemma comma_not_decimal [simp]: "\<not> is_decimal U 44"
  by (simp add: is_decimal_def)

lemma float_digits:
  assumes "list_all (is_decimal U) ip" "ip \<noteq> []"
  shows "float U ip = Inr (to_double (digits_value U ip) 1)"
proof -
  from assms(1) have tw: "takeWhile (is_decimal U) ip = ip"
    and dw: "dropWhile (is_decimal U) ip = []"
    by (simp_all add: list_all_iff)
  show ?thesis
    unfolding float_def Let_def tw dw using assms(2) by simp
qed

lemma float_decimal:
  assumes "list_all (is_decimal U) ip" "list_all (is_decimal U) fp" "ip \<noteq> [] \<or> fp \<noteq> []"
  shows "float U (ip @ 46 # fp) = Inr (to_double (digits_value U (ip @ fp)) (10 ^ length fp))"
proof -
  from assms(1) have tw: "takeWhile (is_decimal U) (ip @ 46 # fp) = ip"
    and dw: "dropWhile (is_decimal U) (ip @ 46 # fp) = 46 # fp"
    by (simp_all add: list_all_iff takeWhile_append2 dropWhile_append2)
  show ?thesis
    unfolding float_def Let_def tw dw using assms(2,3) by simp
qed

lemma float_no_digit:
  assumes "\<not> list_ex (is_decimal U) t"
  shows "float U t = Inl ValueError"
proof (cases t)
  case Nil
  then show ?thesis by (simp add: float_def)
next
  case (Cons c fp)
  with assms have c: "\<not> is_decimal U c" and fp: "fp \<noteq> [] \<longrightarrow> \<not> list_all (is_decimal U) fp"
    by (auto simp: list_ex_iff list_all_iff neq_Nil_conv)
  from c Cons have tw: "takeWhile (is_decimal U) t = []"
    and dw: "dropWhile (is_decimal U) t = c # fp"
    by simp_all
  show ?thesis
    unfolding float_def Let_def tw dw using fp by auto
qed

lemma float_two_periods:
  assumes "2 \<le> length (filter (\<lambda>c. c = 46) t)"
  shows "float U t = Inl ValueError"
proof -
  let ?ip = "takeWhile (is_decimal U) t" and ?r = "dropWhile (is_decimal U) t"
  have "filter (\<lambda>c. c = 46) ?ip = []"
    by (auto simp: filter_empty_conv dest: set_takeWhileD)
  moreover have "t = ?ip @ ?r" by simp
  ultimately have "filter (\<lambda>c. c = 46) t = filter (\<lambda>c. c = 46) ?r"
    by (metis append_Nil filter_append)
  with assms have two: "2 \<le> length (filter (\<lambda>c. c = 46) ?r)" by simp
  show ?thesis
  proof (cases ?r)
    case Nil
    with two show ?thesis by simp
  next
    case (Cons c fp)
    with two have "filter (\<lambda>c. c = 46) fp \<noteq> []"
      by (auto split: if_splits)
    then have "46 \<in> set fp"
      by (auto simp: filter_empty_conv)
    with period_not_decimal [of U] have "\<exists>x \<in> set fp. \<not> is_decimal U x"
      by blast
    then have "\<not> list_all (is_decimal U) fp"
      by (simp add: list_all_iff)
    then show ?thesis
      unfolding float_def Let_def Cons by simp
  qed
qed

lemma price_clean:
  "filter (\<lambda>c. c \<noteq> 44) (filter (\<lambda>c. is_decimal U c \<or> c = 44 \<or> c = 46) s) =
   filter (\<lambda>c. is_decimal U c \<or> c = 46) s"
  by (induction s) auto

lemma extract_price_clean:
  "extract_price U s =
     (case float U (filter (\<lambda>c. is_decimal U c \<or> c = 46) s) of Inr v \<Rightarrow> v | Inl e \<Rightarrow> Fin 0)"
proof (cases "s = []")
  case True
  then show ?thesis
    by (simp add: extract_price_def float_def)
next
  case False
  then show ?thesis
    unfolding extract_price_def Let_def price_clean by simp
qed



lemma to_double_150000: "to_double 150000 1 = Fin 150000"
  using to_double_exact [of 150000] by simp

lemma to_double_1250_100: "to_double 1250 100 = Fin (25 / 2)"
  by (simp add: to_double_def ilog2_def round_half_even_def pow2_def bitlen.simps Let_def)

lemma to_double_755_10: "to_double 755 10 = Fin (151 / 2)"
  by (simp add: to_double_def ilog2_def round_half_even_def pow2_def bitlen.simps Let_def)

lemma ascii_is_decimal: "c < 128 \<Longrightarrow> is_decimal U c = (48 \<le> c \<and> c \<le> 57)"
  by (simp add: is_decimal_def)

lemma extract_price_digits_and_periods:
  "extract_price U s =
     (case float U (digits_and_periods U s) of Inr v \<Rightarrow> v | Inl e \<Rightarrow> Fin 0)"
  by (simp only: extract_price_clean digits_and_periods_def)

lemma price_150000:
  assumes "decimal_of U 8364 = None"
  shows "extract_price U (lit ''150,000 '' @ euro) = Fin 150000"
proof -
  have e: "\<not> is_decimal U 8364"
    using assms by (simp add: is_decimal_def)
  have c: "digits_and_periods U (lit ''150,000 '' @ euro) = lit ''150000''"
    by (simp add: digits_and_periods_def lit_def euro_def e ascii_is_decimal)
  have f: "float U (lit ''150000'') = Inr (to_double (digits_value U (lit ''150000'')) 1)"
    by (rule float_digits) (simp_all add: lit_def ascii_is_decimal)
  have v: "digits_value U (lit ''150000'') = 150000"
    by (simp add: digits_value_def decimal_value_def lit_def)
  show ?thesis
    unfolding extract_price_digits_and_periods c f v to_double_150000 by simp
qed

lemma price_na: "extract_price U (lit ''N/A'') = Fin 0"
proof -
  have "digits_and_periods U (lit ''N/A'') = []"
    by (simp add: digits_and_periods_def lit_def ascii_is_decimal)
  then show ?thesis
    by (simp add: extract_price_digits_and_periods float_def)
qed

text \<open>
  Claim C7. \<open>extract_price\<close> always returns a number. What is left of the text after
  the two clean-up steps are its digits and periods, in order. If they read as digits, a
  period and digits (one side may be empty) or as digits alone, the result is that
  decimal number as a float; if there is no digit or more than one period, it is 0. The
  empty text and "N/A" give 0, and "150,000" followed by a space and the euro sign gives
  150000.0 (the euro sign not being a digit).
\<close>

theorem extract_price_strip_and_parse:
  "(\<forall>ip fp. digits_and_periods U s = ip @ 46 # fp \<and> list_all (is_decimal U) ip \<and>
       list_all (is_decimal U) fp \<and> (ip \<noteq> [] \<or> fp \<noteq> [])
      \<longrightarrow> extract_price U s = to_double (digits_value U (ip @ fp)) (10 ^ length fp)) \<and>
   (digits_and_periods U s \<noteq> [] \<and> list_all (is_decimal U) (digits_and_periods U s)
      \<longrightarrow> extract_price U s = to_double (digits_value U (digits_and_periods U s)) 1) \<and>
   (\<not> list_ex (is_decimal U) (digits_and_periods U s) \<or>
    2 \<le> length (filter (\<lambda>c. c = 46) (digits_and_periods U s))
      \<longrightarrow> extract_price U s = Fin 0) \<and>
   extract_price U [] = Fin 0 \<and>
   extract_price U (lit ''N/A'') = Fin 0 \<and>
   (decimal_of U 8364 = None \<longrightarrow> extract_price U (lit ''150,000 '' @ euro) = Fin 150000)"
proof (intro conjI allI impI)
  fix ip fp
  assume "digits_and_periods U s = ip @ 46 # fp \<and> list_all (is_decimal U) ip \<and>
       list_all (is_decimal U) fp \<and> (ip \<noteq> [] \<or> fp \<noteq> [])"
  then show "extract_price U s = to_double (digits_value U (ip @ fp)) (10 ^ length fp)"
    by (simp add: extract_price_digits_and_periods float_decimal)
next
  assume "digits_and_periods U s \<noteq> [] \<and> list_all (is_decimal U) (digits_and_periods U s)"
  then show "extract_price U s = to_double (digits_value U (digits_and_periods U s)) 1"
    by (simp add: extract_price_digits_and_periods float_digits)
next
  assume "\<not> list_ex (is_decimal U) (digits_and_periods U s) \<or>
    2 \<le> length (filter (\<lambda>c. c = 46) (digits_and_periods U s))"
  then have "float U (digits_and_periods U s) = Inl ValueError"
    using float_no_digit float_two_periods by blast
  then show "extract_price U s = Fin 0"
    by (simp add: extract_price_digits_and_periods)
next
  show "extract_price U [] = Fin 0"
    by (simp add: extract_price_def)
next
  show "extract_price U (lit ''N/A'') = Fin 0"
    by (rule price_na)
next
  assume "decimal_of U 8364 = None"
  then show "extract_price U (lit ''150,000 '' @ euro) = Fin 150000"
    by (rule price_150000)
qed


lemma to_double_2500: "to_double 2500 1 = Fin 2500"
  using to_double_exact [of 2500] by simp

theorem extract_price_strip_and_parse_witness:
  "extract_price ascii_ucd (lit ''150,000 '' @ euro) = Fin 150000 \<and>
   extract_price ascii_ucd (lit ''12.50 EUR'') = Fin (25 / 2) \<and>
   extract_price ascii_ucd (lit ''EUR 2,500'') = Fin 2500 \<and>
   extract_price ascii_ucd (lit ''1.2.3'') = Fin 0 \<and>
   extract_price ascii_ucd (lit ''call us'') = Fin 0"
proof -
  note w1 = extract_price_strip_and_parse [where U = ascii_ucd and s = "lit ''12.50 EUR''"]
  note w2 = extract_price_strip_and_parse [where U = ascii_ucd and s = "lit ''1.2.3''"]
  note w3 = extract_price_strip_and_parse [where U = ascii_ucd and s = "lit ''EUR 2,500''"]
  note w4 = extract_price_strip_and_parse [where U = ascii_ucd and s = "lit ''call us''"]
  have "decimal_of ascii_ucd 8364 = None"
    by (simp add: ascii_ucd_def)
  with w1 have p1: "extract_price ascii_ucd (lit ''150,000 '' @ euro) = Fin 150000"
    by blast
  have "digits_and_periods ascii_ucd (lit ''12.50 EUR'') = lit ''12'' @ 46 # lit ''50'' \<and>
      list_all (is_decimal ascii_ucd) (lit ''12'') \<and> list_all (is_decimal ascii_ucd) (lit ''50'') \<and>
      (lit ''12'' \<noteq> [] \<or> lit ''50'' \<noteq> [])"
    by (simp add: digits_and_periods_def lit_def ascii_is_decimal)
  with w1 have "extract_price ascii_ucd (lit ''12.50 EUR'') =
      to_double (digits_value ascii_ucd (lit ''12'' @ lit ''50'')) (10 ^ length (lit ''50''))"
    by blast
  moreover have "digits_value ascii_ucd (lit ''12'' @ lit ''50'') = 1250"
      "(10::nat) ^ length (lit ''50'') = 100"
    by (simp_all add: digits_value_def decimal_value_def lit_def)
  ultimately have p2: "extract_price ascii_ucd (lit ''12.50 EUR'') = Fin (25 / 2)"
    by (simp only: to_double_1250_100)
  have c3: "digits_and_periods ascii_ucd (lit ''EUR 2,500'') = lit ''2500''"
    by (simp add: digits_and_periods_def lit_def ascii_is_decimal)
  have "lit ''2500'' \<noteq> [] \<and> list_all (is_decimal ascii_ucd) (lit ''2500'')"
    by (simp add: lit_def ascii_is_decimal)
  with w3 have "extract_price ascii_ucd (lit ''EUR 2,500'') =
      to_double (digits_value ascii_ucd (lit ''2500'')) 1"
    unfolding c3 by blast
  moreover have "digits_value ascii_ucd (lit ''2500'') = 2500"
    by (simp add: digits_value_def decimal_value_def lit_def)
  ultimately have p3: "extract_price ascii_ucd (lit ''EUR 2,500'') = Fin 2500"
    by (simp only: to_double_2500)
  have "2 \<le> length (filter (\<lambda>c. c = 46) (digits_and_periods ascii_ucd (lit ''1.2.3'')))"
    by (simp add: digits_and_periods_def lit_def ascii_is_decimal)
  with w2 have p4: "extract_price ascii_ucd (lit ''1.2.3'') = Fin 0"
    by blast
  have "\<not> list_ex (is_decimal ascii_ucd) (digits_and_periods ascii_ucd (lit ''call us''))"
    by (simp add: digits_and_periods_def lit_def ascii_is_decimal)
  with w4 have p5: "extract_price ascii_ucd (lit ''call us'') = Fin 0"
    by blast
  from p1 p2 p3 p4 p5 show ?thesis by blast
qed

lemma dropWhile_non_digits:
  assumes "\<not> list_ex (is_decimal U) pre" "ip \<noteq> []" "list_all (is_decimal U) ip"
  shows "dropWhile (\<lambda>c. \<not> is_decimal U c) (pre @ ip @ rest) = ip @ rest"
proof -
  from assms(1) have "dropWhile (\<lambda>c. \<not> is_decimal U c) (pre @ ip @ rest) =
      dropWhile (\<lambda>c. \<not> is_decimal U c) (ip @ rest)"
    by (simp add: list_ex_iff dropWhile_append2)
  also from assms(2,3) have "\<dots> = ip @ rest"
    by (cases ip) simp_all
  finally show ?thesis .
qed

lemma takeWhile_digits:
  assumes "list_all (is_decimal U) ip" "rest = [] \<or> \<not> is_decimal U (hd rest)"
  shows "takeWhile (is_decimal U) (ip @ rest) = ip"
    and "dropWhile (is_decimal U) (ip @ rest) = rest"
  using assms by (cases rest; simp add: list_all_iff)+

lemma search_number_none:
  assumes "\<not> list_ex (is_decimal U) s"
  shows "search_number U s = None"
proof -
  from assms have "dropWhile (\<lambda>c. \<not> is_decimal U c) s = []"
    by (simp add: list_ex_iff)
  then show ?thesis
    by (simp add: search_number_def)
qed

lemma search_number_integer:
  assumes "\<not> list_ex (is_decimal U) pre" "ip \<noteq> []" "list_all (is_decimal U) ip"
    and "rest = [] \<or> \<not> is_decimal U (hd rest)"
    and "\<not> (\<exists>d r. rest = 46 # d # r \<and> is_decimal U d)"
  shows "search_number U (pre @ ip @ rest) = Some ip"
proof -
  note dw = dropWhile_non_digits [OF assms(1-3), of rest]
  note tw = takeWhile_digits [OF assms(3,4)]
  from assms(2) have ne: "ip @ rest \<noteq> []" by simp
  show ?thesis
    unfolding search_number_def Let_def dw tw using ne assms(5)
    by (auto split: list.splits)
qed

lemma search_number_decimal:
  assumes "\<not> list_ex (is_decimal U) pre" "ip \<noteq> []" "list_all (is_decimal U) ip"
    and "fp \<noteq> []" "list_all (is_decimal U) fp"
    and "rest = [] \<or> \<not> is_decimal U (hd rest)"
  shows "search_number U (pre @ ip @ 46 # fp @ rest) = Some (ip @ 46 # fp)"
proof -
  have p: "46 # fp @ rest = [] \<or> \<not> is_decimal U (hd (46 # fp @ rest))"
    by simp
  note dw = dropWhile_non_digits [OF assms(1-3), of "46 # fp @ rest"]
  note tw = takeWhile_digits [OF assms(3) p]
  note tw' = takeWhile_digits(1) [OF assms(5,6)]
  from assms(4) obtain d fp' where fp: "fp = d # fp'"
    by (cases fp) auto
  with assms(5) have d: "is_decimal U d" by simp
  from tw' fp have tw'': "takeWhile (is_decimal U) (d # fp' @ rest) = d # fp'" by simp
  show ?thesis
    unfolding search_number_def Let_def dw tw
    using d tw'' by (simp add: fp)
qed


lemma to_double_120: "to_double 120 1 = Fin 120"
  using to_double_exact [of 120] by simp

lemma extract_area_none:
  assumes "\<not> list_ex (is_decimal U) s"
  shows "extract_area U s = Fin 0"
  using search_number_none [OF assms] by (simp add: extract_area_def)

lemma extract_area_integer:
  assumes "\<not> list_ex (is_decimal U) pre" "ip \<noteq> []" "list_all (is_decimal U) ip"
    and "rest = [] \<or> \<not> is_decimal U (hd rest)"
    and "\<not> (\<exists>d r. rest = 46 # d # r \<and> is_decimal U d)"
  shows "extract_area U (pre @ ip @ rest) = to_double (digits_value U ip) 1"
proof -
  note sn = search_number_integer [OF assms]
  note fl = float_digits [OF assms(3,2)]
  from assms(2) show ?thesis
    by (simp add: extract_area_def sn fl)
qed

lemma extract_area_decimal:
  assumes "\<not> list_ex (is_decimal U) pre" "ip \<noteq> []" "list_all (is_decimal U) ip"
    and "fp \<noteq> []" "list_all (is_decimal U) fp"
    and "rest = [] \<or> \<not> is_decimal U (hd rest)"
  shows "extract_area U (pre @ ip @ 46 # fp @ rest) =
     to_double (digits_value U (ip @ fp)) (10 ^ length fp)"
proof -
  note sn = search_number_decimal [OF assms]
  from assms(2) have "ip \<noteq> [] \<or> fp \<noteq> []" by simp
  note fl = float_decimal [OF assms(3,5) this]
  show ?thesis
    by (simp add: extract_area_def sn fl)
qed

lemma area_75_5: "extract_area U (lit ''75.5 '' @ m_squared) = Fin (151 / 2)"
proof -
  have s: "lit ''75.5 '' @ m_squared = [] @ lit ''75'' @ 46 # lit ''5'' @ (lit '' '' @ m_squared)"
    by (simp add: lit_def)
  have "extract_area U ([] @ lit ''75'' @ 46 # lit ''5'' @ (lit '' '' @ m_squared)) =
      to_double (digits_value U (lit ''75'' @ lit ''5'')) (10 ^ length (lit ''5''))"
    by (rule extract_area_decimal) (simp_all add: lit_def ascii_is_decimal)
  moreover have "digits_value U (lit ''75'' @ lit ''5'') = 755" "(10::nat) ^ length (lit ''5'') = 10"
    by (simp_all add: digits_value_def decimal_value_def lit_def)
  ultimately show ?thesis
    by (simp only: s to_double_755_10)
qed

lemma area_large_plot: "extract_area U (lit ''large plot'') = Fin 0"
  by (rule extract_area_none) (simp add: lit_def ascii_is_decimal)

text \<open>
  Claim C8. \<open>extract_area\<close> always returns a number: 0 for a text without a digit,
  and otherwise the value of the first number in it, which is the first run of digits
  together with a period and the digits after it when these follow directly. "75.5"
  followed by a space and the unit gives 75.5, and "large plot" gives 0.
\<close>

theorem extract_area_first_number:
  "(\<not> list_ex (is_decimal U) s \<longrightarrow> extract_area U s = Fin 0) \<and>
   (\<forall>pre ip rest.
      s = pre @ ip @ rest \<and> \<not> list_ex (is_decimal U) pre \<and>
      ip \<noteq> [] \<and> list_all (is_decimal U) ip \<and>
      (rest = [] \<or> \<not> is_decimal U (hd rest)) \<and>
      \<not> (\<exists>d r. rest = 46 # d # r \<and> is_decimal U d)
      \<longrightarrow> extract_area U s = to_double (digits_value U ip) 1) \<and>
   (\<forall>pre ip fp rest.
      s = pre @ ip @ 46 # fp @ rest \<and> \<not> list_ex (is_decimal U) pre \<and>
      ip \<noteq> [] \<and> list_all (is_decimal U) ip \<and> fp \<noteq> [] \<and> list_all (is_decimal U) fp \<and>
      (rest = [] \<or> \<not> is_decimal U (hd rest))
      \<longrightarrow> extract_area U s = to_double (digits_value U (ip @ fp)) (10 ^ length fp)) \<and>
   extract_area U (lit ''75.5 '' @ m_squared) = Fin (151 / 2) \<and>
   extract_area U (lit ''large plot'') = Fin 0"
  using extract_area_none [of U s] area_75_5 [of U] area_large_plot [of U]
  by (auto simp: extract_area_integer extract_area_decimal)

theorem extract_area_first_number_witness:
  "extract_area ascii_ucd (lit ''75.5 '' @ m_squared) = Fin (151 / 2) \<and>
   extract_area ascii_ucd (lit ''plot 120 m2'') = Fin 120 \<and>
   extract_area ascii_ucd (lit ''large plot'') = Fin 0"
proof -
  note w1 = extract_area_first_number [where U = ascii_ucd and s = "lit ''plot 120 m2''"]
  note w2 = extract_area_first_number [where U = ascii_ucd and s = "lit ''75.5 '' @ m_squared"]
  note w3 = extract_area_first_number [where U = ascii_ucd and s = "lit ''large plot''"]
  have "lit ''plot 120 m2'' = lit ''plot '' @ lit ''120'' @ lit '' m2'' \<and>
      \<not> list_ex (is_decimal ascii_ucd) (lit ''plot '') \<and>
      lit ''120'' \<noteq> [] \<and> list_all (is_decimal ascii_ucd) (lit ''120'') \<and>
      (lit '' m2'' = [] \<or> \<not> is_decimal ascii_ucd (hd (lit '' m2''))) \<and>
      \<not> (\<exists>d r. lit '' m2'' = 46 # d # r \<and> is_decimal ascii_ucd d)"
    by (simp add: lit_def ascii_is_decimal)
  with w1 have "extract_area ascii_ucd (lit ''plot 120 m2'') =
      to_double (digits_value ascii_ucd (lit ''120'')) 1"
    by blast
  moreover have "digits_value ascii_ucd (lit ''120'') = 120"
    by (simp add: digits_value_def decimal_value_def lit_def)
  ultimately have p1: "extract_area ascii_ucd (lit ''plot 120 m2'') = Fin 120"
    by (simp only: to_double_120)
  have "lit ''75.5 '' @ m_squared = [] @ lit ''75'' @ 46 # lit ''5'' @ (lit '' '' @ m_squared) \<and>
      \<not> list_ex (is_decimal ascii_ucd) [] \<and>
      lit ''75'' \<noteq> [] \<and> list_all (is_decimal ascii_ucd) (lit ''75'') \<and>
      lit ''5'' \<noteq> [] \<and> list_all (is_decimal ascii_ucd) (lit ''5'') \<and>
      (lit '' '' @ m_squared = [] \<or> \<not> is_decimal ascii_ucd (hd (lit '' '' @ m_squared)))"
    by (simp add: lit_def ascii_is_decimal)
  with w2 have "extract_area ascii_ucd (lit ''75.5 '' @ m_squared) =
      to_double (digits_value ascii_ucd (lit ''75'' @ lit ''5'')) (10 ^ length (lit ''5''))"
    by blast
  moreover have "digits_value ascii_ucd (lit ''75'' @ lit ''5'') = 755"
      "(10::nat) ^ length (lit ''5'') = 10"
    by (simp_all add: digits_value_def decimal_value_def lit_def)
  ultimately have p2: "extract_area ascii_ucd (lit ''75.5 '' @ m_squared) = Fin (151 / 2)"
    by (simp only: to_double_755_10)
  have "\<not> list_ex (is_decimal ascii_ucd) (lit ''large plot'')"
    by (simp add: lit_def ascii_is_decimal)
  with w3 have p3: "extract_area ascii_ucd (lit ''large plot'') = Fin 0"
    by blast
  from p1 p2 p3 show ?thesis by blast
qed

section \<open>The seen-state store\<close>

lemma get_known_document: "get_known_listings (known_document K now) = Inr (JArr K)"
  by (simp add: known_document_def)

text \<open>
  Claim C9. Loading never raises: every exception inside \<open>load_known_listings\<close> is
  caught, an error line is logged and the empty set is returned. That covers a file that
  cannot be opened, content that does not decode, a document that is not a dictionary
  and a \<open>known_listings\<close> entry that \<open>set\<close> rejects. A missing file gives the
  empty set without an error line. In each of these cases the result is the set that a
  file with an empty list of known listings gives.
\<close>

theorem load_known_listings_total:
  "(\<forall>e. load_body f = Inl e \<longrightarrow> load_known_listings f = ([], [Error_loading])) \<and>
   load_known_listings Absent = ([], []) \<and>
   load_known_listings Unreadable = ([], [Error_loading]) \<and>
   load_known_listings Undecodable = ([], [Error_loading]) \<and>
   (\<forall>data e. get_known_listings data = Inl e \<longrightarrow>
      load_known_listings (Holds data) = ([], [Error_loading])) \<and>
   (\<forall>data v e. get_known_listings data = Inr v \<and> py_set v = Inl e \<longrightarrow>
      load_known_listings (Holds data) = ([], [Error_loading])) \<and>
   (\<forall>data v K. get_known_listings data = Inr v \<and> py_set v = Inr K \<longrightarrow>
      load_known_listings (Holds data) = (K, [])) \<and>
   fst (load_known_listings (Holds (known_document [] now))) = []"
  by (auto simp: load_known_listings_def load_body_def get_known_document)

theorem load_known_listings_total_witness:
  "load_known_listings (Holds (JArr [JStr a1])) = ([], [Error_loading]) \<and>
   load_known_listings (Holds (JObj [(lit ''known_listings'', JNum 5)])) = ([], [Error_loading]) \<and>
   load_known_listings (Holds (JObj [(lit ''known_listings'', JArr [JArr []])])) =
     ([], [Error_loading]) \<and>
   load_known_listings (Holds (known_document [JStr a1, JStr a2] (lit ''t''))) =
     ([JStr a1, JStr a2], []) \<and>
   load_known_listings (Holds JNull) = ([], [Error_loading])"
proof -
  note w1 = load_known_listings_total [where f = "Holds (JArr [JStr a1])"]
  note w2 = load_known_listings_total
    [where f = "Holds (JObj [(lit ''known_listings'', JNum 5)])"]
  note w3 = load_known_listings_total
    [where f = "Holds (JObj [(lit ''known_listings'', JArr [JArr []])])"]
  note w4 = load_known_listings_total
    [where f = "Holds (known_document [JStr a1, JStr a2] (lit ''t''))"]
  have "get_known_listings (JArr [JStr a1]) = Inl AttributeError"
    by simp
  with w1 have p1: "load_known_listings (Holds (JArr [JStr a1])) = ([], [Error_loading])"
    by blast
  have "get_known_listings (JObj [(lit ''known_listings'', JNum 5)]) = Inr (JNum 5) \<and>
      py_set (JNum 5) = Inl TypeError"
    by simp
  with w2 have p2:
    "load_known_listings (Holds (JObj [(lit ''known_listings'', JNum 5)])) = ([], [Error_loading])"
    by blast
  have "get_known_listings (JObj [(lit ''known_listings'', JArr [JArr []])]) = Inr (JArr [JArr []]) \<and>
      py_set (JArr [JArr []]) = Inl TypeError"
    by simp
  with w3 have p3:
    "load_known_listings (Holds (JObj [(lit ''known_listings'', JArr [JArr []])])) =
       ([], [Error_loading])"
    by blast
  have "a1 \<noteq> a2"
    by (simp add: a1_def a2_def lit_def)
  then have "get_known_listings (known_document [JStr a1, JStr a2] (lit ''t'')) =
        Inr (JArr [JStr a1, JStr a2]) \<and>
      py_set (JArr [JStr a1, JStr a2]) = Inr [JStr a1, JStr a2]"
    by (simp add: get_known_document set_add_def set_contains_def)
  with w4 have p4:
    "load_known_listings (Holds (known_document [JStr a1, JStr a2] (lit ''t''))) =
       ([JStr a1, JStr a2], [])"
    by blast
  note w5 = load_known_listings_total [where f = "Holds JNull"]
  have "load_body (Holds JNull) = Inl AttributeError"
    by (simp add: load_body_def)
  with w5 have p5: "load_known_listings (Holds JNull) = ([], [Error_loading])"
    by blast
  from p1 p2 p3 p4 p5 show ?thesis by blast
qed

text \<open>
  The claim C5 as it is stated fails: a fault after the file has been opened for writing
  leaves it without the document it held before.
\<close>

theorem save_failure_counterexample:
  "fst (save_known_listings [JStr a1, JStr a2] (lit ''t2'') Write_fails
         (Holds (known_document [JStr a1] (lit ''t1'')))) \<noteq>
   Holds (known_document [JStr a1] (lit ''t1''))"
  by (simp add: save_known_listings_def)

text \<open>
  Claim C5, amended. A save that fails logs an error line and raises nothing. The file is
  left as it was when the fault is in opening it; a fault after the opening leaves a
  file that holds no complete document, which the next load reads as the empty set.
\<close>

theorem save_failure:
  "flt \<noteq> No_fault \<longrightarrow>
     snd (save_known_listings K now flt f) = [Error_saving] \<and>
     (flt = Open_fails \<longrightarrow> fst (save_known_listings K now flt f) = f) \<and>
     (flt = Write_fails \<longrightarrow>
        fst (save_known_listings K now flt f) = Undecodable \<and>
        fst (load_known_listings (fst (save_known_listings K now flt f))) = [])"
  by (cases flt) (simp_all add: save_known_listings_def load_known_listings_def load_body_def)

theorem save_failure_witness:
  "save_known_listings [JStr a1, JStr a2] (lit ''t2'') Open_fails
     (Holds (known_document [JStr a1] (lit ''t1''))) =
     (Holds (known_document [JStr a1] (lit ''t1'')), [Error_saving]) \<and>
   save_known_listings [JStr a1, JStr a2] (lit ''t2'') Write_fails
     (Holds (known_document [JStr a1] (lit ''t1''))) =
     (Undecodable, [Error_saving])"
proof -
  note w1 = save_failure [where flt = Open_fails and K = "[JStr a1, JStr a2]"
      and now = "lit ''t2''" and f = "Holds (known_document [JStr a1] (lit ''t1''))"]
  note w2 = save_failure [where flt = Write_fails and K = "[JStr a1, JStr a2]"
      and now = "lit ''t2''" and f = "Holds (known_document [JStr a1] (lit ''t1''))"]
  have "Open_fails \<noteq> No_fault" and "Write_fails \<noteq> No_fault"
    by simp_all
  with w1 w2 show ?thesis
    by (simp add: prod_eq_iff)
qed

section \<open>The record extractor\<close>

lemma to_double_100: "to_double 100 1 = Fin 100"
  using to_double_exact [of 100] by simp

lemma to_double_50: "to_double 50 1 = Fin 50"
  using to_double_exact [of 50] by simp

lemma price_100_eur: "extract_price U (lit ''100 EUR'') = Fin 100"
proof -
  have c: "digits_and_periods U (lit ''100 EUR'') = lit ''100''"
    by (simp add: digits_and_periods_def lit_def ascii_is_decimal)
  have f: "float U (lit ''100'') = Inr (to_double (digits_value U (lit ''100'')) 1)"
    by (rule float_digits) (simp_all add: lit_def ascii_is_decimal)
  have v: "digits_value U (lit ''100'') = 100"
    by (simp add: digits_value_def decimal_value_def lit_def)
  show ?thesis
    unfolding extract_price_digits_and_periods c f v to_double_100 by simp
qed

lemma area_50_m2: "extract_area U (lit ''50 m2'') = Fin 50"
proof -
  have s: "lit ''50 m2'' = [] @ lit ''50'' @ lit '' m2''"
    by (simp add: lit_def)
  have "extract_area U ([] @ lit ''50'' @ lit '' m2'') = to_double (digits_value U (lit ''50'')) 1"
    by (rule extract_area_integer) (simp_all add: lit_def ascii_is_decimal)
  moreover have "digits_value U (lit ''50'') = 50"
    by (simp add: digits_value_def decimal_value_def lit_def)
  ultimately show ?thesis
    by (simp only: s to_double_50)
qed

lemma remove_tr_200: "remove_all (lit ''tr_'') (lit ''tr_200'') = lit ''200''"
  by (simp add: lit_def)

lemma find_price_row_eur: "find_price U (tr_tds row_eur) = Fin 100"
proof -
  have "find_price U (tr_tds row_eur) = extract_price U (lit ''100 EUR'')"
    by (simp add: row_eur_def linked_def plain_def) (simp add: lit_def euro_def)
  then show ?thesis by (simp only: price_100_eur)
qed

lemma find_area_row_eur: "find_area U (tr_tds row_eur) = Fin 50"
proof -
  have "find_area U (tr_tds row_eur) = extract_area U (lit ''50 m2'')"
    by (simp add: row_eur_def linked_def plain_def) (simp add: lit_def m_squared_def)
  then show ?thesis by (simp only: area_50_m2)
qed

lemma description_row_eur:
  "description_parts (lit ''Plot in Olaine'') (tr_tds row_eur) =
     [lit ''100 EUR'', lit ''50 m2'', lit ''Riga'']"
  by (simp add: description_parts_def row_eur_def linked_def plain_def)
     (simp add: lit_def euro_def m_squared_def)

lemma join_row_eur:
  "join (lit '' | '') [lit ''100 EUR'', lit ''50 m2'', lit ''Riga''] = lit ''100 EUR | 50 m2 | Riga''"
  by (simp add: lit_def)

lemma title_row_eur:
  "find_title_cell (tr_tds row_eur) =
     Some (linked ''Plot in Olaine'' ''/msg/200.html'', lit ''/msg/200.html'')"
  by (simp add: row_eur_def linked_def plain_def) (simp add: lit_def)

lemma link_row_eur: "absolute_link (lit ''/msg/200.html'') = lit ''https://www.ss.lv/msg/200.html''"
  by (simp add: absolute_link_def startswith_def lit_def)

lemma parse_row_eur:
  "parse_row U (lit ''https://www.ss.lv/plots/'') (lit ''2024-01-01T00:00:00'') row_eur =
     Some listing_eur"
proof -
  have i: "tr_id row_eur = Some (lit ''tr_200'')" and n: "length (tr_tds row_eur) = 4"
    by (simp_all add: row_eur_def)
  have t: "td_text (linked ''Plot in Olaine'' ''/msg/200.html'') = lit ''Plot in Olaine''"
    by (simp add: linked_def)
  have ne: "lit ''200'' \<noteq> []"
    by (simp add: lit_def)
  show ?thesis
    unfolding parse_row_def Let_def i option.case remove_tr_200 n title_row_eur prod.case t
      find_price_row_eur find_area_row_eur description_row_eur join_row_eur link_row_eur
      listing_eur_def
    using ne by simp
qed

lemma parse_row_few_cells: "length (tr_tds row) < 4 \<Longrightarrow> parse_row U url now row = None"
  by (simp add: parse_row_def Let_def)

lemma parse_row_cells: "parse_row U url now row = Some l \<Longrightarrow> 4 \<le> length (tr_tds row)"
  by (rule ccontr) (simp add: parse_row_few_cells)

lemma scrape_rows_origin:
  "l \<in> set (scrape_rows U url clk k rows) \<Longrightarrow>
     \<exists>row \<in> set rows. \<exists>j. parse_row U url (clk j) row = Some l"
proof (induction rows arbitrary: k)
  case Nil
  then show ?case by simp
next
  case (Cons row rows)
  show ?case
  proof (cases "parse_row U url (clk k) row")
    case None
    with Cons.prems have "l \<in> set (scrape_rows U url clk (Suc k) rows)" by simp
    from Cons.IH [OF this] show ?thesis by auto
  next
    case (Some l')
    with Cons.prems have "l = l' \<or> l \<in> set (scrape_rows U url clk (Suc k) rows)" by auto
    then show ?thesis
    proof
      assume "l = l'"
      with Some show ?thesis by auto
    next
      assume "l \<in> set (scrape_rows U url clk (Suc k) rows)"
      from Cons.IH [OF this] show ?thesis by auto
    qed
  qed
qed

lemma scrape_rows_few_cells:
  "\<forall>row \<in> set rows. length (tr_tds row) < 4 \<Longrightarrow> scrape_rows U url clk k rows = []"
  by (induction rows arbitrary: k) (simp_all add: parse_row_few_cells)

text \<open>
  Claim C10. A row with fewer than four cells gives no listing, whatever its id and its
  links are, and a page whose rows all have fewer than four cells gives the empty list.
  Every listing that \<open>scrape_listings\<close> returns was built from a listing row of the
  page that has at least four cells.
\<close>

theorem scrape_listings_min_cells:
  "(length (tr_tds row) < 4 \<longrightarrow> parse_row U url now row = None) \<and>
   (\<forall>trs. www url = Page trs \<and> (\<forall>r \<in> set trs. length (tr_tds r) < 4)
      \<longrightarrow> fst (scrape_listings U www clk url) = []) \<and>
   (\<forall>l \<in> set (fst (scrape_listings U www clk url)).
      \<exists>trs r j. www url = Page trs \<and> r \<in> set trs \<and> is_listing_row r \<and>
        4 \<le> length (tr_tds r) \<and> parse_row U url (clk url j) r = Some l)"
proof (intro conjI allI impI ballI)
  assume "length (tr_tds row) < 4"
  then show "parse_row U url now row = None"
    by (rule parse_row_few_cells)
next
  fix trs
  assume "www url = Page trs \<and> (\<forall>r \<in> set trs. length (tr_tds r) < 4)"
  then show "fst (scrape_listings U www clk url) = []"
    by (simp add: scrape_listings_def scrape_rows_few_cells)
next
  fix l
  assume l: "l \<in> set (fst (scrape_listings U www clk url))"
  show "\<exists>trs r j. www url = Page trs \<and> r \<in> set trs \<and> is_listing_row r \<and>
        4 \<le> length (tr_tds r) \<and> parse_row U url (clk url j) r = Some l"
  proof (cases "www url")
    case Request_failed
    with l show ?thesis by (simp add: scrape_listings_def)
  next
    case (Page trs)
    with l have "l \<in> set (scrape_rows U url (clk url) 0 (filter is_listing_row trs))"
      by (simp add: scrape_listings_def)
    from scrape_rows_origin [OF this]
    obtain r j where "r \<in> set trs" "is_listing_row r" "parse_row U url (clk url j) r = Some l"
      by auto
    with Page parse_row_cells show ?thesis by blast
  qed
qed

lemma listing_row_short: "is_listing_row row_short"
  by (simp add: is_listing_row_def row_short_def startswith_def lit_def)

lemma listing_row_eur: "is_listing_row row_eur"
  by (simp add: is_listing_row_def row_eur_def startswith_def lit_def)

lemma scrape_plots:
  "scrape_listings U plots_web fixed_clock plots_url = ([listing_eur], [])"
proof -
  have "parse_row U plots_url (lit ''2024-01-01T00:00:00'') row_short = None"
    by (rule parse_row_few_cells) (simp add: row_short_def)
  then show ?thesis
    by (simp add: scrape_listings_def plots_web_def listing_row_short listing_row_eur
        fixed_clock_def parse_row_eur [folded plots_url_def])
qed

theorem scrape_listings_min_cells_witness:
  "length (tr_tds row_short) = 3 \<and> tr_id row_short = Some (lit ''tr_100'') \<and>
   td_a (hd (tr_tds row_short)) = Some (Some (lit ''/msg/100.html'')) \<and>
   parse_row ascii_ucd plots_url (lit ''2024-01-01T00:00:00'') row_short = None \<and>
   fst (scrape_listings ascii_ucd (\<lambda>url. Page [row_short]) fixed_clock plots_url) = [] \<and>
   fst (scrape_listings ascii_ucd plots_web fixed_clock plots_url) = [listing_eur] \<and>
   (\<exists>trs r j. plots_web plots_url = Page trs \<and> r \<in> set trs \<and> is_listing_row r \<and>
      4 \<le> length (tr_tds r) \<and> parse_row ascii_ucd plots_url (fixed_clock plots_url j) r =
      Some listing_eur)"
proof -
  note w1 = scrape_listings_min_cells [where row = row_short and U = ascii_ucd
      and url = plots_url and now = "lit ''2024-01-01T00:00:00''"
      and www = "\<lambda>url. Page [row_short]" and clk = fixed_clock]
  note w2 = scrape_listings_min_cells [where U = ascii_ucd and url = plots_url
      and www = plots_web and clk = fixed_clock]
  have s: "length (tr_tds row_short) = 3" "tr_id row_short = Some (lit ''tr_100'')"
    "td_a (hd (tr_tds row_short)) = Some (Some (lit ''/msg/100.html''))"
    by (simp_all add: row_short_def linked_def)
  then have n: "length (tr_tds row_short) < 4" by simp
  with w1 have p1: "parse_row ascii_ucd plots_url (lit ''2024-01-01T00:00:00'') row_short = None"
    by blast
  from n have "(\<lambda>url. Page [row_short]) plots_url = Page [row_short] \<and>
      (\<forall>r \<in> set [row_short]. length (tr_tds r) < 4)"
    by simp
  with w1 have p2:
    "fst (scrape_listings ascii_ucd (\<lambda>url. Page [row_short]) fixed_clock plots_url) = []"
    by blast
  have p3: "fst (scrape_listings ascii_ucd plots_web fixed_clock plots_url) = [listing_eur]"
    by (simp add: scrape_plots)
  then have "listing_eur \<in> set (fst (scrape_listings ascii_ucd plots_web fixed_clock plots_url))"
    by simp
  with w2 have p4: "\<exists>trs r j. plots_web plots_url = Page trs \<and> r \<in> set trs \<and>
      is_listing_row r \<and> 4 \<le> length (tr_tds r) \<and>
      parse_row ascii_ucd plots_url (fixed_clock plots_url j) r = Some listing_eur"
    by blast
  from s p1 p2 p3 p4 show ?thesis by blast
qed

text \<open>
  On claim C6. The scans for the price and the area take "EUR" and "m2" for markers,
  the filter of the description parts only the euro sign and the unit written with the
  superscript: the cells "100 EUR" and "50 m2" give the price and the area of the listing
  and are parts of its description as well.
\<close>

theorem description_keeps_eur_and_m2:
  "map_option description
     (parse_row ascii_ucd plots_url (lit ''2024-01-01T00:00:00'') row_eur) =
     Some (lit ''100 EUR | 50 m2 | Riga'') \<and>
   map_option price (parse_row ascii_ucd plots_url (lit ''2024-01-01T00:00:00'') row_eur) =
     Some (Fin 100) \<and>
   map_option area (parse_row ascii_ucd plots_url (lit ''2024-01-01T00:00:00'') row_eur) =
     Some (Fin 50)"
  by (simp add: parse_row_eur [folded plots_url_def] listing_eur_def)

section \<open>The run orchestrator\<close>

lemma canon_JStr': "JStr x = canon j \<longleftrightarrow> j = JStr x"
  by (cases j) auto

lemma set_contains_JStr: "set_contains K (JStr x) \<longleftrightarrow> JStr x \<in> set K"
  by (auto simp: set_contains_def canon_JStr' image_iff)

lemma set_contains_add: "set_contains (set_add K x) y \<longleftrightarrow> set_contains K y \<or> canon y = canon x"
  by (auto simp: set_add_def set_contains_def)

lemma classify_known:
  "classify U C ls (K, new) = (K', new') \<Longrightarrow>
     (\<forall>x. set_contains K x \<longrightarrow> set_contains K' x) \<and>
     (\<forall>l \<in> set ls. set_contains K' (JStr (listing_id l)))"
proof (induction ls arbitrary: K new)
  case Nil
  then show ?case by simp
next
  case (Cons l ls)
  show ?case
  proof (cases "set_contains K (JStr (listing_id l))")
    case True
    with Cons.prems have "classify U C ls (K, new) = (K', new')" by simp
    from Cons.IH [OF this] True show ?thesis by auto
  next
    case False
    with Cons.prems have "classify U C ls
        (set_add K (JStr (listing_id l)), if meets_criteria U C l then new @ [l] else new) =
        (K', new')"
      by simp
    from Cons.IH [OF this] show ?thesis
      by (auto simp: set_contains_add)
  qed
qed

lemma classify_all_known:
  "\<forall>l \<in> set ls. set_contains K (JStr (listing_id l)) \<Longrightarrow>
     classify U C ls (K, new) = (K, new)"
  by (induction ls) simp_all

text \<open>The ids of the listings of a page depend on the page alone.\<close>

lemma parse_row_id:
  "map_option listing_id (parse_row U url now row) =
   map_option listing_id (parse_row U' url' now' row)"
  by (simp add: parse_row_def Let_def split: option.splits prod.splits)

lemma scrape_rows_ids:
  "map listing_id (scrape_rows U url clk k rows) =
   map listing_id (scrape_rows U' url' clk' k' rows)"
proof (induction rows arbitrary: k k')
  case Nil
  then show ?case by simp
next
  case (Cons row rows)
  from parse_row_id [of U url "clk k" row U' url' "clk' k'"] Cons.IH [of "Suc k" "Suc k'"]
  show ?case
    by (cases "parse_row U url (clk k) row"; cases "parse_row U' url' (clk' k') row") simp_all
qed

lemma scrape_listings_ids:
  "map listing_id (fst (scrape_listings U w clk url)) =
   map listing_id (fst (scrape_listings U' w clk' url))"
  using scrape_rows_ids [of U url "clk url" 0 _ U' url "clk' url" 0]
  by (simp add: scrape_listings_def split: response.splits)

lemma scrape_listings_id_set:
  "listing_id ` set (fst (scrape_listings U w clk url)) =
   listing_id ` set (fst (scrape_listings U' w clk' url))"
  using arg_cong [OF scrape_listings_ids [of U w clk url U' clk'], of set] by simp

lemma check_urls_known:
  "check_urls E us (K, new, lg) = (K', new', lg') \<Longrightarrow>
     (\<forall>x. set_contains K x \<longrightarrow> set_contains K' x) \<and>
     (\<forall>url \<in> set us.
        \<forall>l \<in> set (fst (scrape_listings (unicode E) (web E) (clock E) url)).
          set_contains K' (JStr (listing_id l)))"
proof (induction us arbitrary: K new lg)
  case Nil
  then show ?case by simp
next
  case (Cons url us)
  obtain ls lgs where s: "scrape_listings (unicode E) (web E) (clock E) url = (ls, lgs)"
    by (cases "scrape_listings (unicode E) (web E) (clock E) url")
  obtain K1 new1 where c: "classify (unicode E) (search_criteria E) ls (K, new) = (K1, new1)"
    by (cases "classify (unicode E) (search_criteria E) ls (K, new)")
  from Cons.prems s c have r: "check_urls E us (K1, new1, lg @ lgs) = (K', new', lg')"
    by simp
  note k1 = classify_known [OF c]
  note k2 = Cons.IH [OF r]
  from k1 k2 s show ?case by auto
qed

lemma check_urls_all_known:
  "\<forall>url \<in> set us.
     \<forall>l \<in> set (fst (scrape_listings (unicode E) (web E) (clock E) url)).
       set_contains K (JStr (listing_id l)) \<Longrightarrow>
   \<exists>lg'. check_urls E us (K, new, lg) = (K, new, lg')"
proof (induction us arbitrary: lg)
  case Nil
  then show ?case by simp
next
  case (Cons url us)
  obtain ls lgs where s: "scrape_listings (unicode E) (web E) (clock E) url = (ls, lgs)"
    by (cases "scrape_listings (unicode E) (web E) (clock E) url")
  with Cons.prems have "\<forall>l \<in> set ls. set_contains K (JStr (listing_id l))"
    by auto
  then have c: "classify (unicode E) (search_criteria E) ls (K, new) = (K, new)"
    by (rule classify_all_known)
  from Cons.prems have "\<forall>url \<in> set us.
     \<forall>l \<in> set (fst (scrape_listings (unicode E) (web E) (clock E) url)).
       set_contains K (JStr (listing_id l))"
    by simp
  from Cons.IH [OF this, of "lg @ lgs"] s c show ?case
    by simp
qed

lemma check_known:
  assumes "url \<in> set (urls E)"
    and "l \<in> set (fst (scrape_listings (unicode E) (web E) (clock E) url))"
  shows "set_contains (known_listings (check_for_new_listings E K f)) (JStr (listing_id l))"
proof -
  obtain K' new lg where c: "check_urls E (urls E) (K, [], []) = (K', new, lg)"
    by (cases "check_urls E (urls E) (K, [], [])")
  from check_urls_known [OF c] assms have "set_contains K' (JStr (listing_id l))"
    by blast
  with c show ?thesis
    by (simp add: check_for_new_listings_def split: prod.splits)
qed

lemma check_keeps_known:
  assumes "set_contains K x"
  shows "set_contains (known_listings (check_for_new_listings E K f)) x"
proof -
  obtain K' new lg where c: "check_urls E (urls E) (K, [], []) = (K', new, lg)"
    by (cases "check_urls E (urls E) (K, [], [])")
  from check_urls_known [OF c] assms have "set_contains K' x"
    by blast
  with c show ?thesis
    by (simp add: check_for_new_listings_def split: prod.splits)
qed

lemma check_all_known:
  assumes "\<forall>url \<in> set (urls E).
     \<forall>l \<in> set (fst (scrape_listings (unicode E) (web E) (clock E) url)).
       set_contains K (JStr (listing_id l))"
  shows "new_matching_listings (check_for_new_listings E K f) = [] \<and>
     known_listings (check_for_new_listings E K f) = K"
proof -
  from check_urls_all_known [OF assms, of "[]" "[]"]
  obtain lg where "check_urls E (urls E) (K, [], []) = (K, [], lg)"
    by blast
  then show ?thesis
    by (simp add: check_for_new_listings_def split: prod.splits)
qed

lemma same_pages_known:
  assumes "urls E' = urls E" "web E' = web E"
    and "\<forall>url \<in> set (urls E).
       \<forall>l \<in> set (fst (scrape_listings (unicode E) (web E) (clock E) url)).
         set_contains K (JStr (listing_id l))"
  shows "\<forall>url \<in> set (urls E').
       \<forall>l \<in> set (fst (scrape_listings (unicode E') (web E') (clock E') url)).
         set_contains K (JStr (listing_id l))"
proof (intro ballI)
  fix url l
  assume u: "url \<in> set (urls E')"
    and l: "l \<in> set (fst (scrape_listings (unicode E') (web E') (clock E') url))"
  from l have "listing_id l \<in> listing_id ` set (fst (scrape_listings (unicode E') (web E') (clock E') url))"
    by (rule imageI)
  also have "\<dots> = listing_id ` set (fst (scrape_listings (unicode E) (web E) (clock E) url))"
    unfolding assms(2) by (rule scrape_listings_id_set)
  finally obtain l' where "l' \<in> set (fst (scrape_listings (unicode E) (web E) (clock E) url))"
    "listing_id l' = listing_id l"
    by auto
  with u assms(1,3) show "set_contains K (JStr (listing_id l))"
    by (metis)
qed

lemma foldl_set_add_subset: "set (foldl set_add A xs) \<subseteq> set A \<union> set xs"
proof (induction xs arbitrary: A)
  case Nil
  then show ?case by simp
next
  case (Cons x xs)
  have "set (set_add A x) \<subseteq> set A \<union> {x}"
    by (auto simp: set_add_def)
  with Cons [of "set_add A x"] show ?case by auto
qed

lemma foldl_set_add_contains:
  "set_contains (foldl set_add A xs) x \<longleftrightarrow> set_contains A x \<or> set_contains xs x"
proof (induction xs arbitrary: A)
  case Nil
  then show ?case by (simp add: set_contains_def)
next
  case (Cons y xs)
  have "set_contains (y # xs) x \<longleftrightarrow> canon x = canon y \<or> set_contains xs x"
    by (auto simp: set_contains_def)
  with Cons [of "set_add A y"] show ?case
    by (auto simp: set_contains_add)
qed

lemma foldl_set_add_hashable:
  "list_all hashable A \<Longrightarrow> list_all hashable xs \<Longrightarrow> list_all hashable (foldl set_add A xs)"
  using foldl_set_add_subset [of A xs] by (auto simp: list_all_iff)

lemma py_set_hashable: "py_set v = Inr K \<Longrightarrow> list_all hashable K"
proof (cases v)
  case (JArr xs)
  assume "py_set v = Inr K"
  with JArr show ?thesis
    by (auto simp: foldl_set_add_hashable split: if_splits)
next
  case (JStr s)
  assume "py_set v = Inr K"
  with JStr have K: "K = foldl set_add [] (map (\<lambda>c. JStr [c]) s)" by simp
  have "list_all hashable (map (\<lambda>c. JStr [c]) s)"
    by (simp add: list_all_iff)
  then show ?thesis
    unfolding K by (intro foldl_set_add_hashable) simp_all
next
  case (JObj kvs)
  assume "py_set v = Inr K"
  with JObj have K: "K = foldl set_add [] (map (\<lambda>kv. JStr (fst kv)) kvs)" by simp
  have "list_all hashable (map (\<lambda>kv. JStr (fst kv)) kvs)"
    by (simp add: list_all_iff)
  then show ?thesis
    unfolding K by (intro foldl_set_add_hashable) simp_all
qed simp_all

lemma load_hashable: "list_all hashable (fst (load_known_listings f))"
  by (auto simp: load_known_listings_def load_body_def py_set_hashable
      split: data_file.splits sum.splits option.splits)

lemma classify_hashable:
  "classify U C ls (K, new) = (K', new') \<Longrightarrow> list_all hashable K \<Longrightarrow> list_all hashable K'"
proof (induction ls arbitrary: K new)
  case Nil
  then show ?case by simp
next
  case (Cons l ls)
  have "list_all hashable (set_add K (JStr (listing_id l)))"
    using Cons.prems(2) by (simp add: set_add_def)
  with Cons show ?case
    by (auto split: if_splits)
qed

lemma check_urls_hashable:
  "check_urls E us (K, new, lg) = (K', new', lg') \<Longrightarrow> list_all hashable K \<Longrightarrow>
     list_all hashable K'"
proof (induction us arbitrary: K new lg)
  case Nil
  then show ?case by simp
next
  case (Cons url us)
  obtain ls lgs where s: "scrape_listings (unicode E) (web E) (clock E) url = (ls, lgs)"
    by (cases "scrape_listings (unicode E) (web E) (clock E) url")
  obtain K1 new1 where c: "classify (unicode E) (search_criteria E) ls (K, new) = (K1, new1)"
    by (cases "classify (unicode E) (search_criteria E) ls (K, new)")
  from Cons.prems s c have r: "check_urls E us (K1, new1, lg @ lgs) = (K', new', lg')"
    by simp
  from classify_hashable [OF c Cons.prems(2)] show ?case
    by (rule Cons.IH [OF r])
qed

lemma check_hashable:
  assumes "list_all hashable K"
  shows "list_all hashable (known_listings (check_for_new_listings E K f))"
proof -
  obtain K' new lg where c: "check_urls E (urls E) (K, [], []) = (K', new, lg)"
    by (cases "check_urls E (urls E) (K, [], [])")
  from check_urls_hashable [OF c assms] c show ?thesis
    by (simp add: check_for_new_listings_def split: prod.splits)
qed

lemma check_saved:
  "save_fault E = No_fault \<Longrightarrow>
     file_after (check_for_new_listings E K f) =
       Holds (known_document (known_listings (check_for_new_listings E K f)) (saved_at E))"
  by (simp add: check_for_new_listings_def save_known_listings_def split: prod.splits)

lemma load_saved:
  "list_all hashable K \<Longrightarrow>
     load_known_listings (Holds (known_document K now)) = (foldl set_add [] K, [])"
  by (simp add: load_known_listings_def load_body_def get_known_document)

lemma single_run_fields:
  "new_matching_listings (single_run E f) =
     new_matching_listings (check_for_new_listings E (fst (load_known_listings f)) f)"
  "known_listings (single_run E f) =
     known_listings (check_for_new_listings E (fst (load_known_listings f)) f)"
  "file_after (single_run E f) =
     file_after (check_for_new_listings E (fst (load_known_listings f)) f)"
  by (simp_all add: single_run_def Let_def split: prod.splits)

lemma reload_contains:
  assumes "save_fault E = No_fault"
  shows "set_contains (fst (load_known_listings (file_after (single_run E f)))) x \<longleftrightarrow>
     set_contains (known_listings (single_run E f)) x"
proof -
  let ?K = "known_listings (check_for_new_listings E (fst (load_known_listings f)) f)"
  have h: "list_all hashable ?K"
    by (rule check_hashable) (rule load_hashable)
  have "file_after (single_run E f) = Holds (known_document ?K (saved_at E))"
    by (simp only: single_run_fields check_saved [OF assms])
  then have "fst (load_known_listings (file_after (single_run E f))) = foldl set_add [] ?K"
    by (simp add: load_saved [OF h])
  then have "set_contains (fst (load_known_listings (file_after (single_run E f)))) x \<longleftrightarrow>
      set_contains [] x \<or> set_contains ?K x"
    by (simp only: foldl_set_add_contains)
  then show ?thesis
    by (simp add: single_run_fields set_contains_def)
qed

text \<open>
  Claim C1. Whatever the filter says about a listing, its id is in the known set when
  \<open>check_for_new_listings\<close> returns: the id is added before \<open>meets_criteria\<close> is
  asked. The set is saved once, after the loop over the URLs; when the save does not
  fail the file then holds the document of that set, and a process that loads the file
  has the id of every listing the run extracted among its known listings.
\<close>

theorem extracted_ids_persisted:
  "(\<forall>url \<in> set (urls E).
      \<forall>l \<in> set (fst (scrape_listings (unicode E) (web E) (clock E) url)).
        JStr (listing_id l) \<in> set (known_listings (check_for_new_listings E K f))) \<and>
   (save_fault E = No_fault \<longrightarrow>
      file_after (check_for_new_listings E K f) =
        Holds (known_document (known_listings (check_for_new_listings E K f)) (saved_at E))) \<and>
   (save_fault E = No_fault \<longrightarrow>
      (\<forall>url \<in> set (urls E).
         \<forall>l \<in> set (fst (scrape_listings (unicode E) (web E) (clock E) url)).
           JStr (listing_id l) \<in> set (fst (load_known_listings (file_after (single_run E f))))))"
proof (intro conjI impI ballI)
  fix url l
  assume "url \<in> set (urls E)"
    and "l \<in> set (fst (scrape_listings (unicode E) (web E) (clock E) url))"
  then show "JStr (listing_id l) \<in> set (known_listings (check_for_new_listings E K f))"
    using check_known [of url E l K f] by (simp add: set_contains_JStr)
next
  assume "save_fault E = No_fault"
  then show "file_after (check_for_new_listings E K f) =
      Holds (known_document (known_listings (check_for_new_listings E K f)) (saved_at E))"
    by (rule check_saved)
next
  fix url l
  assume ok: "save_fault E = No_fault" and "url \<in> set (urls E)"
    and "l \<in> set (fst (scrape_listings (unicode E) (web E) (clock E) url))"
  then have "set_contains (known_listings (single_run E f)) (JStr (listing_id l))"
    by (simp add: single_run_fields check_known)
  with reload_contains [OF ok, of f "JStr (listing_id l)"]
  show "JStr (listing_id l) \<in> set (fst (load_known_listings (file_after (single_run E f))))"
    by (simp add: set_contains_JStr)
qed

lemma check_plots_env:
  "check_for_new_listings plots_env [] f =
     \<lparr>new_matching_listings = [], known_listings = [JStr (lit ''200'')],
      file_after = Holds (known_document [JStr (lit ''200'')] (lit ''2024-01-01T00:00:05'')),
      logged = []\<rparr>"
proof -
  have "\<not> meets_criteria ascii_ucd SEARCH_CRITERIA listing_eur"
    by (simp add: meets_criteria_def SEARCH_CRITERIA_def listing_eur_def)
  then show ?thesis
    by (simp add: check_for_new_listings_def plots_env_def scrape_plots set_contains_def
        set_add_def save_known_listings_def)
      (simp add: listing_eur_def)
qed

theorem extracted_ids_persisted_witness:
  "fst (scrape_listings ascii_ucd plots_web fixed_clock plots_url) = [listing_eur] \<and>
   \<not> meets_criteria ascii_ucd SEARCH_CRITERIA listing_eur \<and>
   JStr (listing_id listing_eur) \<in> set (known_listings (check_for_new_listings plots_env [] Absent)) \<and>
   file_after (check_for_new_listings plots_env [] Absent) =
     Holds (known_document [JStr (lit ''200'')] (lit ''2024-01-01T00:00:05'')) \<and>
   JStr (listing_id listing_eur) \<in>
     set (fst (load_known_listings (file_after (single_run plots_env Absent))))"
proof -
  note w = extracted_ids_persisted [where E = plots_env and K = "[]" and f = Absent]
  have e: "unicode plots_env = ascii_ucd" "web plots_env = plots_web"
    "clock plots_env = fixed_clock" "urls plots_env = [plots_url]"
    "save_fault plots_env = No_fault" "saved_at plots_env = lit ''2024-01-01T00:00:05''"
    by (simp_all add: plots_env_def)
  have s: "fst (scrape_listings ascii_ucd plots_web fixed_clock plots_url) = [listing_eur]"
    by (simp add: scrape_plots)
  have m: "\<not> meets_criteria ascii_ucd SEARCH_CRITERIA listing_eur"
    by (simp add: meets_criteria_def SEARCH_CRITERIA_def listing_eur_def)
  have u: "plots_url \<in> set (urls plots_env)"
    and l: "listing_eur \<in> set (fst (scrape_listings (unicode plots_env) (web plots_env)
        (clock plots_env) plots_url))"
    by (simp_all add: e s)
  from w u l have k1: "JStr (listing_id listing_eur) \<in>
      set (known_listings (check_for_new_listings plots_env [] Absent))"
    by blast
  from w e(5) have "file_after (check_for_new_listings plots_env [] Absent) =
      Holds (known_document (known_listings (check_for_new_listings plots_env [] Absent))
        (saved_at plots_env))"
    by blast
  then have k2: "file_after (check_for_new_listings plots_env [] Absent) =
      Holds (known_document [JStr (lit ''200'')] (lit ''2024-01-01T00:00:05''))"
    by (simp add: check_plots_env e)
  from w e(5) u l have k3: "JStr (listing_id listing_eur) \<in>
      set (fst (load_known_listings (file_after (single_run plots_env Absent))))"
    by blast
  from s m k1 k2 k3 show ?thesis by blast
qed

lemma second_check:
  assumes "urls E' = urls E" "web E' = web E"
    and "\<forall>x. set_contains K1 x \<longleftrightarrow> set_contains (known_listings (check_for_new_listings E K f)) x"
  shows "new_matching_listings (check_for_new_listings E' K1 f') = [] \<and>
     known_listings (check_for_new_listings E' K1 f') = K1"
proof -
  have "\<forall>url \<in> set (urls E).
       \<forall>l \<in> set (fst (scrape_listings (unicode E) (web E) (clock E) url)).
         set_contains K1 (JStr (listing_id l))"
    using assms(3) check_known [of _ E _ K f] by blast
  from same_pages_known [OF assms(1,2) this] show ?thesis
    by (rule check_all_known)
qed

text \<open>
  Claim C4. A second check over the same URLs and the same pages, started from the known
  set the first check left, returns no listing and leaves the known set as it is,
  whatever the criteria, the clock and the fault of its save are: every id it extracts is
  known already. The same holds for a second process that loads the file the first one
  wrote, when the first save did not fail.
\<close>

theorem second_run_finds_nothing:
  "urls E' = urls E \<and> web E' = web E \<longrightarrow>
     new_matching_listings
       (check_for_new_listings E' (known_listings (check_for_new_listings E K f))
          (file_after (check_for_new_listings E K f))) = [] \<and>
     known_listings
       (check_for_new_listings E' (known_listings (check_for_new_listings E K f))
          (file_after (check_for_new_listings E K f))) =
       known_listings (check_for_new_listings E K f) \<and>
     (save_fault E = No_fault \<longrightarrow>
        new_matching_listings (single_run E' (file_after (single_run E f))) = [])"
proof (intro impI conjI)
  assume a: "urls E' = urls E \<and> web E' = web E"
  then have u: "urls E' = urls E" and w: "web E' = web E" by simp_all
  from second_check [OF u w, of "known_listings (check_for_new_listings E K f)" K f]
  show "new_matching_listings
       (check_for_new_listings E' (known_listings (check_for_new_listings E K f))
          (file_after (check_for_new_listings E K f))) = []"
    and "known_listings
       (check_for_new_listings E' (known_listings (check_for_new_listings E K f))
          (file_after (check_for_new_listings E K f))) =
       known_listings (check_for_new_listings E K f)"
    by simp_all
  assume ok: "save_fault E = No_fault"
  let ?K0 = "fst (load_known_listings f)"
  let ?f1 = "file_after (single_run E f)"
  have "\<forall>x. set_contains (fst (load_known_listings ?f1)) x \<longleftrightarrow>
      set_contains (known_listings (check_for_new_listings E ?K0 f)) x"
    using reload_contains [OF ok, of f] by (simp add: single_run_fields)
  from second_check [OF u w this, of ?f1]
  show "new_matching_listings (single_run E' (file_after (single_run E f))) = []"
    by (simp add: single_run_fields)
qed

lemma lower_listing_eur:
  "text_content U listing_eur = lit ''plot in olaine 100 eur | 50 m2 | riga''"
proof -
  have "title listing_eur @ lit '' '' @ description listing_eur =
      lit ''Plot in Olaine 100 EUR | 50 m2 | Riga''"
    by (simp add: listing_eur_def lit_def)
  moreover have "lower U (lit ''Plot in Olaine 100 EUR | 50 m2 | Riga'') =
      lit ''plot in olaine 100 eur | 50 m2 | riga''"
    by (subst lower_ascii) (simp_all add: lit_def ascii_lower_def)
  ultimately show ?thesis
    by (simp only: text_content_def)
qed

lemma plot_matches: "meets_criteria U plot_criteria listing_eur"
proof -
  have "lower U (lit ''plot'') = lit ''plot''"
    by (subst lower_ascii) (simp_all add: lit_def ascii_lower_def)
  moreover have "contains (lit ''plot in olaine 100 eur | 50 m2 | riga'') (lit ''plot'')"
    by (simp add: lit_def)
  ultimately show ?thesis
    by (simp add: meets_criteria_def plot_criteria_def has_keyword_def lower_listing_eur)
      (simp add: listing_eur_def)
qed

lemma first_check_plots:
  "new_matching_listings
     (check_for_new_listings (plots_env\<lparr>search_criteria := plot_criteria\<rparr>) [] f) = [listing_eur]"
  using plot_matches [of ascii_ucd]
  by (simp add: check_for_new_listings_def plots_env_def scrape_plots set_contains_def
      set_add_def save_known_listings_def)

theorem second_run_finds_nothing_witness:
  "new_matching_listings
     (single_run (plots_env\<lparr>search_criteria := plot_criteria\<rparr>) Absent) = [listing_eur] \<and>
   new_matching_listings
     (single_run later_env
        (file_after (single_run (plots_env\<lparr>search_criteria := plot_criteria\<rparr>) Absent))) = [] \<and>
   new_matching_listings
     (check_for_new_listings later_env
        (known_listings
           (check_for_new_listings (plots_env\<lparr>search_criteria := plot_criteria\<rparr>) [] Absent))
        (file_after
           (check_for_new_listings (plots_env\<lparr>search_criteria := plot_criteria\<rparr>) [] Absent))) = []"
proof -
  let ?E = "plots_env\<lparr>search_criteria := plot_criteria\<rparr>"
  note w = second_run_finds_nothing [where E = ?E and E' = later_env and K = "[]" and f = Absent]
  have e: "urls later_env = urls ?E \<and> web later_env = web ?E"
    by (simp add: later_env_def)
  have ok: "save_fault ?E = No_fault"
    by (simp add: plots_env_def)
  have "load_known_listings Absent = ([], [])"
    by (simp add: load_known_listings_def load_body_def)
  then have r1: "new_matching_listings (single_run ?E Absent) = [listing_eur]"
    by (simp add: single_run_fields first_check_plots)
  from w e ok have r2: "new_matching_listings
      (single_run later_env (file_after (single_run ?E Absent))) = []"
    by blast
  from w e have r3: "new_matching_listings
     (check_for_new_listings later_env (known_listings (check_for_new_listings ?E [] Absent))
        (file_after (check_for_new_listings ?E [] Absent))) = []"
    by blast
  from r1 r2 r3 show ?thesis by blast
qed

end
